theory Spec2Isabelle
  imports Complex_Main "HOL-Library.AList"
begin

section \<open>Data model\<close>

text \<open>
  The ledger of the backend: accounts with a cached balance, transactions of three
  types, subscriptions with a billing cycle. The tables of the Prisma client are
  association lists keyed by the primary key, in table order. Amounts and balances
  are decimals; they are modelled as exact rationals, so the rounding of
  \<^verbatim>\<open>Number(decimal)\<close> is not part of the model.
\<close>

datatype tx_type = INCOME | EXPENSE | TRANSFER

datatype billing_cycle = MONTHLY | YEARLY

text \<open>
  A JavaScript \<^verbatim>\<open>Date\<close>, read in the local time zone (taken to have a fixed
  offset): \<^verbatim>\<open>getFullYear()\<close>, \<^verbatim>\<open>getMonth()\<close> (0 to 11), \<^verbatim>\<open>getDate()\<close> (from 1)
  and the milliseconds elapsed within the day.
\<close>

record date =
  fullYear :: int
  monthIndex :: nat
  dayOfMonth :: nat
  msOfDay :: nat

record account =
  acc_userId :: string
  acc_currency :: string
  balance :: rat
  acc_isActive :: bool

record category =
  cat_userId :: "string option"
  isDefault :: bool

record tx_metadata =
  subscriptionId :: string
  subscriptionName :: string
  meta_billingCycle :: billing_cycle

record transaction =
  amount :: rat
  description :: "string option"
  txType :: tx_type
  tx_date :: date
  currency :: string
  processed :: bool
  aiExtracted :: bool
  tx_userId :: string
  accountId :: string
  categoryId :: "string option"
  metadata :: "tx_metadata option"

record subscription =
  sub_userId :: string
  sub_name :: string
  sub_description :: "string option"
  sub_amount :: rat
  billingCycle :: billing_cycle
  nextBillingDate :: date
  sub_accountId :: string
  sub_categoryId :: "string option"
  sub_isActive :: bool

record db =
  accounts :: "(string \<times> account) list"
  categories :: "(string \<times> category) list"
  transactions :: "(nat \<times> transaction) list"
  subscriptions :: "(string \<times> subscription) list"

text \<open>The bodies of the POST and PUT requests, as the two zod schemas type them.\<close>

record create_body =
  c_amount :: rat
  c_description :: "string option"
  c_type :: tx_type
  c_date :: date
  c_accountId :: string
  c_categoryId :: "string option"

record update_body =
  u_amount :: "rat option"
  u_description :: "string option"
  u_type :: "tx_type option"
  u_date :: "date option"
  u_accountId :: "string option"
  u_categoryId :: "string option"

datatype error = ZodError | RecordNotFound | ForeignKeyViolation | StorageFailure

text \<open>
  What a route answers: 201 with the created transaction (its id is kept), 200, 404
  and 500.
\<close>

datatype response = Created nat | Success | NotFound | ServerError

section \<open>Dates\<close>

text \<open>
  \<^verbatim>\<open>Date.prototype.setMonth\<close> and \<^verbatim>\<open>setFullYear\<close> are built into the language. They
  are modelled after ECMAScript's \<^verbatim>\<open>MakeDay(year, month, date)\<close>: the month is
  reduced modulo 12 into the year, and the day of the month is counted on from the
  first day of that month, running over into the following months when it is past
  the month's end. The day of the month comes from \<^verbatim>\<open>getDate()\<close>, so it is at
  least 1.
\<close>

definition isLeapYear :: "int \<Rightarrow> bool" where
  "isLeapYear y = (y mod 4 = 0 \<and> (y mod 100 \<noteq> 0 \<or> y mod 400 = 0))"

definition daysInMonth :: "int \<Rightarrow> nat \<Rightarrow> nat" where
  "daysInMonth y m =
     (if m = 1 then (if isLeapYear y then 29 else 28)
      else if m = 3 \<or> m = 5 \<or> m = 8 \<or> m = 10 then 30
      else 31)"

function makeDay :: "int \<Rightarrow> nat \<Rightarrow> nat \<Rightarrow> int \<times> nat \<times> nat" where
  "makeDay y m d =
     (if daysInMonth y m < d
      then (if m = 11 then makeDay (y + 1) 0 (d - daysInMonth y m)
            else makeDay y (Suc m) (d - daysInMonth y m))
      else (y, m, d))"
  by pat_completeness auto
termination
  by (relation "measure (\<lambda>(y, m, d). d)") (auto simp: daysInMonth_def)

declare makeDay.simps [simp del]

definition setMonth :: "date \<Rightarrow> nat \<Rightarrow> date" where
  "setMonth dt mo =
     (case makeDay (fullYear dt + int (mo div 12)) (mo mod 12) (dayOfMonth dt) of
        (y, m, d) \<Rightarrow> dt\<lparr>fullYear := y, monthIndex := m, dayOfMonth := d\<rparr>)"

definition setFullYear :: "date \<Rightarrow> int \<Rightarrow> date" where
  "setFullYear dt yr =
     (case makeDay yr (monthIndex dt) (dayOfMonth dt) of
        (y, m, d) \<Rightarrow> dt\<lparr>fullYear := y, monthIndex := m, dayOfMonth := d\<rparr>)"

text \<open>The comparison \<^verbatim>\<open>lte\<close> of two time values.\<close>

definition date_le :: "date \<Rightarrow> date \<Rightarrow> bool" where
  "date_le a b =
     (fullYear a < fullYear b \<or>
      (fullYear a = fullYear b \<and>
       (monthIndex a < monthIndex b \<or>
        (monthIndex a = monthIndex b \<and>
         (dayOfMonth a < dayOfMonth b \<or>
          (dayOfMonth a = dayOfMonth b \<and> msOfDay a \<le> msOfDay b))))))"

section \<open>The storage calls\<close>

text \<open>
  Every \<^verbatim>\<open>await prisma...\<close> may throw. A call throws for a reason of its own (a
  missing row, a broken foreign key), or because the storage is lost at that
  moment: \<open>fault = Some n\<close> makes the call numbered \<open>n\<close> of a handler throw, and
  \<open>None\<close> lets every call through.
\<close>

definition attempt :: "nat option \<Rightarrow> nat \<Rightarrow> error + 'a \<Rightarrow> error + 'a" where
  "attempt fault n r = (if fault = Some n then Inl StorageFailure else r)"

text \<open>JavaScript's truthiness of an optional string: undefined and the empty string are falsy.\<close>

definition truthy :: "string option \<Rightarrow> bool" where
  "truthy s = (case s of None \<Rightarrow> False | Some v \<Rightarrow> v \<noteq> [])"

text \<open>
  A table is searched and updated through its primary key, so a lookup is \<open>map_of\<close>
  and an update replaces the row of that key. The ids that the database generates for
  new transactions are unique; the model takes the next free number. The table of
  users is left out: the user of a request and the user of a subscription exist.
\<close>

definition fresh_id :: "(nat \<times> 'a) list \<Rightarrow> nat" where
  "fresh_id rows = Suc (foldr max (map fst rows) 0)"

definition account_findFirst :: "string \<Rightarrow> string \<Rightarrow> db \<Rightarrow> account option" where
  "account_findFirst accId uid d =
     (case map_of (accounts d) accId of
        None \<Rightarrow> None
      | Some a \<Rightarrow> if acc_userId a = uid \<and> acc_isActive a then Some a else None)"

definition account_findUnique :: "string \<Rightarrow> db \<Rightarrow> account option" where
  "account_findUnique accId d = map_of (accounts d) accId"

definition category_findFirst :: "string \<Rightarrow> string \<Rightarrow> db \<Rightarrow> category option" where
  "category_findFirst catId uid d =
     (case map_of (categories d) catId of
        None \<Rightarrow> None
      | Some c \<Rightarrow> if cat_userId c = Some uid \<or> isDefault c then Some c else None)"

definition transaction_findFirst :: "nat \<Rightarrow> string \<Rightarrow> db \<Rightarrow> transaction option" where
  "transaction_findFirst txId uid d =
     (case map_of (transactions d) txId of
        None \<Rightarrow> None
      | Some t \<Rightarrow> if tx_userId t = uid then Some t else None)"

text \<open>The foreign keys of a transaction row: its account, and its category when it has one.\<close>

definition references_ok :: "string \<Rightarrow> string option \<Rightarrow> db \<Rightarrow> bool" where
  "references_ok accId catId d =
     (map_of (accounts d) accId \<noteq> None \<and>
      (case catId of None \<Rightarrow> True | Some c \<Rightarrow> map_of (categories d) c \<noteq> None))"

definition transaction_create :: "transaction \<Rightarrow> db \<Rightarrow> error + nat \<times> db" where
  "transaction_create t d =
     (if references_ok (accountId t) (categoryId t) d
      then (let i = fresh_id (transactions d)
            in Inr (i, d\<lparr>transactions := transactions d @ [(i, t)]\<rparr>))
      else Inl ForeignKeyViolation)"

text \<open>\<^verbatim>\<open>data: validatedData\<close>: the fields that are present overwrite the row's.\<close>

definition apply_update :: "update_body \<Rightarrow> transaction \<Rightarrow> transaction" where
  "apply_update u t =
     t\<lparr>amount := (case u_amount u of None \<Rightarrow> amount t | Some a \<Rightarrow> a),
       description := (case u_description u of None \<Rightarrow> description t | Some s \<Rightarrow> Some s),
       txType := (case u_type u of None \<Rightarrow> txType t | Some ty \<Rightarrow> ty),
       tx_date := (case u_date u of None \<Rightarrow> tx_date t | Some dt \<Rightarrow> dt),
       accountId := (case u_accountId u of None \<Rightarrow> accountId t | Some a \<Rightarrow> a),
       categoryId := (case u_categoryId u of None \<Rightarrow> categoryId t | Some c \<Rightarrow> Some c)\<rparr>"

definition transaction_update :: "nat \<Rightarrow> update_body \<Rightarrow> db \<Rightarrow> error + db" where
  "transaction_update txId u d =
     (case map_of (transactions d) txId of
        None \<Rightarrow> Inl RecordNotFound
      | Some t \<Rightarrow>
          (let t' = apply_update u t
           in if references_ok (accountId t') (categoryId t') d
              then Inr (d\<lparr>transactions := AList.update txId t' (transactions d)\<rparr>)
              else Inl ForeignKeyViolation))"

definition transaction_delete :: "nat \<Rightarrow> db \<Rightarrow> error + db" where
  "transaction_delete txId d =
     (case map_of (transactions d) txId of
        None \<Rightarrow> Inl RecordNotFound
      | Some t \<Rightarrow> Inr (d\<lparr>transactions := AList.delete txId (transactions d)\<rparr>))"

definition account_update_increment :: "string \<Rightarrow> rat \<Rightarrow> db \<Rightarrow> error + db" where
  "account_update_increment accId x d =
     (case map_of (accounts d) accId of
        None \<Rightarrow> Inl RecordNotFound
      | Some a \<Rightarrow> Inr (d\<lparr>accounts := AList.update accId (a\<lparr>balance := balance a + x\<rparr>) (accounts d)\<rparr>))"

definition account_update_decrement :: "string \<Rightarrow> rat \<Rightarrow> db \<Rightarrow> error + db" where
  "account_update_decrement accId x d =
     (case map_of (accounts d) accId of
        None \<Rightarrow> Inl RecordNotFound
      | Some a \<Rightarrow> Inr (d\<lparr>accounts := AList.update accId (a\<lparr>balance := balance a - x\<rparr>) (accounts d)\<rparr>))"

definition subscription_update :: "string \<Rightarrow> date \<Rightarrow> db \<Rightarrow> error + db" where
  "subscription_update subId nbd d =
     (case map_of (subscriptions d) subId of
        None \<Rightarrow> Inl RecordNotFound
      | Some s \<Rightarrow>
          Inr (d\<lparr>subscriptions := AList.update subId (s\<lparr>nextBillingDate := nbd\<rparr>) (subscriptions d)\<rparr>))"

definition subscription_findMany :: "date \<Rightarrow> db \<Rightarrow> (string \<times> subscription) list" where
  "subscription_findMany now d =
     filter (\<lambda>(i, s). sub_isActive s \<and> date_le (nextBillingDate s) now) (subscriptions d)"

section \<open>The transaction routes\<close>

definition CreateTransactionSchema :: "create_body \<Rightarrow> error + create_body" where
  "CreateTransactionSchema body = (if 0 < c_amount body then Inr body else Inl ZodError)"

definition UpdateTransactionSchema :: "update_body \<Rightarrow> error + update_body" where
  "UpdateTransactionSchema body =
     (case u_amount body of
        None \<Rightarrow> Inr body
      | Some a \<Rightarrow> if 0 < a then Inr body else Inl ZodError)"

text \<open>
  The category check that POST and PUT share: a falsy id is not looked up; a
  category must be the user's own or a default one. The result tells whether the
  route goes on (otherwise it answers 404).
\<close>

definition category_check ::
  "nat option \<Rightarrow> nat \<Rightarrow> string \<Rightarrow> string option \<Rightarrow> db \<Rightarrow> error + bool" where
  "category_check fault n userId catId d =
     (if truthy catId
      then (case attempt fault n (Inr (category_findFirst (the catId) userId d)) of
              Inl e \<Rightarrow> Inl e
            | Inr None \<Rightarrow> Inr False
            | Inr (Some c) \<Rightarrow> Inr True)
      else Inr True)"

text \<open>The \<^verbatim>\<open>data\<close> of POST's create: the validated body, the user, the account's currency.\<close>

definition create_data :: "string \<Rightarrow> create_body \<Rightarrow> account \<Rightarrow> transaction" where
  "create_data userId validatedData account =
     \<lparr>amount = c_amount validatedData,
      description = c_description validatedData,
      txType = c_type validatedData,
      tx_date = c_date validatedData,
      currency = acc_currency account,
      processed = True,
      aiExtracted = False,
      tx_userId = userId,
      accountId = c_accountId validatedData,
      categoryId = c_categoryId validatedData,
      metadata = None\<rparr>"

text \<open>POST, from \<^verbatim>\<open>prisma.transaction.create\<close> on: the row, then the balance.\<close>

definition post_writes ::
  "nat option \<Rightarrow> string \<Rightarrow> create_body \<Rightarrow> account \<Rightarrow> db \<Rightarrow> response \<times> db" where
  "post_writes fault userId validatedData account d =
     (case attempt fault 2
             (transaction_create (create_data userId validatedData account) d) of
        Inl e \<Rightarrow> (ServerError, d)
      | Inr (txId, d1) \<Rightarrow>
          (if c_type validatedData \<noteq> TRANSFER
           then (let balanceChange =
                       (if c_type validatedData = EXPENSE then - c_amount validatedData
                        else c_amount validatedData)
                 in case attempt fault 3
                           (account_update_increment (c_accountId validatedData) balanceChange d1) of
                      Inl e \<Rightarrow> (ServerError, d1)
                    | Inr d2 \<Rightarrow> (Created txId, d2))
           else (Created txId, d1)))"

definition post_transaction ::
  "nat option \<Rightarrow> string \<Rightarrow> create_body \<Rightarrow> db \<Rightarrow> response \<times> db" where
  "post_transaction fault userId body d =
     (case CreateTransactionSchema body of
        Inl e \<Rightarrow> (ServerError, d)
      | Inr validatedData \<Rightarrow>
          (case attempt fault 0 (Inr (account_findFirst (c_accountId validatedData) userId d)) of
             Inl e \<Rightarrow> (ServerError, d)
           | Inr None \<Rightarrow> (NotFound, d)
           | Inr (Some account) \<Rightarrow>
               (case category_check fault 1 userId (c_categoryId validatedData) d of
                  Inl e \<Rightarrow> (ServerError, d)
                | Inr False \<Rightarrow> (NotFound, d)
                | Inr True \<Rightarrow> post_writes fault userId validatedData account d)))"

text \<open>
  PUT, after \<^verbatim>\<open>prisma.transaction.update\<close>: when the body carries an amount, a type
  or an account, the old row's effect is reverted on the old account and the new
  row's effect is applied to the new account; a TRANSFER side issues no update.
\<close>

definition put_balances ::
  "nat option \<Rightarrow> transaction \<Rightarrow> update_body \<Rightarrow> db \<Rightarrow> response \<times> db" where
  "put_balances fault existingTransaction validatedData d =
     (if u_amount validatedData \<noteq> None \<or> u_type validatedData \<noteq> None
         \<or> u_accountId validatedData \<noteq> None
      then
        (case (if txType existingTransaction \<noteq> TRANSFER
               then (let originalBalanceChange =
                           (if txType existingTransaction = EXPENSE
                            then amount existingTransaction
                            else - amount existingTransaction)
                     in attempt fault 4
                          (account_update_increment (accountId existingTransaction)
                             originalBalanceChange d))
               else Inr d) of
           Inl e \<Rightarrow> (ServerError, d)
         | Inr d1 \<Rightarrow>
             (let newAmount = (case u_amount validatedData of
                                 None \<Rightarrow> amount existingTransaction | Some a \<Rightarrow> a);
                  newType = (case u_type validatedData of
                               None \<Rightarrow> txType existingTransaction | Some ty \<Rightarrow> ty);
                  newAccountId = (case u_accountId validatedData of
                                    None \<Rightarrow> accountId existingTransaction | Some a \<Rightarrow> a)
              in if newType \<noteq> TRANSFER
                 then (let newBalanceChange =
                             (if newType = EXPENSE then - newAmount else newAmount)
                       in case attempt fault 5
                                 (account_update_increment newAccountId newBalanceChange d1) of
                            Inl e \<Rightarrow> (ServerError, d1)
                          | Inr d2 \<Rightarrow> (Success, d2))
                 else (Success, d1)))
      else (Success, d))"

text \<open>The account check of PUT: only when the body names another, truthy account.\<close>

definition account_check ::
  "nat option \<Rightarrow> string \<Rightarrow> transaction \<Rightarrow> update_body \<Rightarrow> db \<Rightarrow> error + bool" where
  "account_check fault userId existingTransaction validatedData d =
     (if truthy (u_accountId validatedData)
         \<and> u_accountId validatedData \<noteq> Some (accountId existingTransaction)
      then (case attempt fault 1
                   (Inr (account_findFirst (the (u_accountId validatedData)) userId d)) of
              Inl e \<Rightarrow> Inl e
            | Inr None \<Rightarrow> Inr False
            | Inr (Some a) \<Rightarrow> Inr True)
      else Inr True)"

definition put_transaction ::
  "nat option \<Rightarrow> string \<Rightarrow> nat \<Rightarrow> update_body \<Rightarrow> db \<Rightarrow> response \<times> db" where
  "put_transaction fault userId txId body d =
     (case UpdateTransactionSchema body of
        Inl e \<Rightarrow> (ServerError, d)
      | Inr validatedData \<Rightarrow>
          (case attempt fault 0 (Inr (transaction_findFirst txId userId d)) of
             Inl e \<Rightarrow> (ServerError, d)
           | Inr None \<Rightarrow> (NotFound, d)
           | Inr (Some existingTransaction) \<Rightarrow>
               (case account_check fault userId existingTransaction validatedData d of
                  Inl e \<Rightarrow> (ServerError, d)
                | Inr False \<Rightarrow> (NotFound, d)
                | Inr True \<Rightarrow>
                    (case category_check fault 2 userId (u_categoryId validatedData) d of
                       Inl e \<Rightarrow> (ServerError, d)
                     | Inr False \<Rightarrow> (NotFound, d)
                     | Inr True \<Rightarrow>
                         (case attempt fault 3 (transaction_update txId validatedData d) of
                            Inl e \<Rightarrow> (ServerError, d)
                          | Inr d1 \<Rightarrow>
                              put_balances fault existingTransaction validatedData d1)))))"

definition delete_transaction :: "nat option \<Rightarrow> string \<Rightarrow> nat \<Rightarrow> db \<Rightarrow> response \<times> db" where
  "delete_transaction fault userId txId d =
     (case attempt fault 0 (Inr (transaction_findFirst txId userId d)) of
        Inl e \<Rightarrow> (ServerError, d)
      | Inr None \<Rightarrow> (NotFound, d)
      | Inr (Some transaction) \<Rightarrow>
          (case attempt fault 1 (transaction_delete txId d) of
             Inl e \<Rightarrow> (ServerError, d)
           | Inr d1 \<Rightarrow>
               (if txType transaction \<noteq> TRANSFER
                then (let balanceChange =
                            (if txType transaction = EXPENSE then amount transaction
                             else - amount transaction)
                      in case attempt fault 2
                                (account_update_increment (accountId transaction)
                                   balanceChange d1) of
                           Inl e \<Rightarrow> (ServerError, d1)
                         | Inr d2 \<Rightarrow> (Success, d2))
                else (Success, d1))))"

section \<open>The subscription processor\<close>

text \<open>What one run writes to the console, one entry per subscription it went through.\<close>

datatype outcome =
    Processed string
  | AccountNotFound string
  | ErrorProcessing string error
  | ErrorInProcessSubscriptions error

text \<open>The description of the emitted expense: the name, then the description when it is truthy.\<close>

definition expense_description :: "subscription \<Rightarrow> string" where
  "expense_description s =
     sub_name s @ (if truthy (sub_description s) then '' - '' @ the (sub_description s) else [])"

text \<open>
  The next billing date is computed on a copy of the subscription's own date: one
  month on for MONTHLY, one year on for YEARLY.
\<close>

definition next_billing_date :: "subscription \<Rightarrow> date" where
  "next_billing_date s =
     (let nbd = nextBillingDate s
      in if billingCycle s = MONTHLY then setMonth nbd (monthIndex nbd + 1)
         else if billingCycle s = YEARLY then setFullYear nbd (fullYear nbd + 1)
         else nbd)"

definition subscription_expense :: "string \<Rightarrow> subscription \<Rightarrow> account \<Rightarrow> transaction" where
  "subscription_expense subId s account =
     \<lparr>amount = sub_amount s,
      description = Some (expense_description s),
      txType = EXPENSE,
      tx_date = nextBillingDate s,
      currency = acc_currency account,
      processed = True,
      aiExtracted = False,
      tx_userId = sub_userId s,
      accountId = sub_accountId s,
      categoryId = sub_categoryId s,
      metadata = Some \<lparr>subscriptionId = subId, subscriptionName = sub_name s,
                       meta_billingCycle = billingCycle s\<rparr>\<rparr>"

text \<open>
  The body of the loop, with its own try and catch: four storage calls in a row,
  and whatever was written before a call throws stays written.
\<close>

definition process_subscription ::
  "nat option \<Rightarrow> string \<times> subscription \<Rightarrow> db \<Rightarrow> outcome \<times> db" where
  "process_subscription fault row d =
     (case row of (subId, s) \<Rightarrow>
        (case attempt fault 0 (Inr (account_findUnique (sub_accountId s) d)) of
           Inl e \<Rightarrow> (ErrorProcessing subId e, d)
         | Inr None \<Rightarrow> (AccountNotFound subId, d)
         | Inr (Some account) \<Rightarrow>
             (case attempt fault 1 (transaction_create (subscription_expense subId s account) d) of
                Inl e \<Rightarrow> (ErrorProcessing subId e, d)
              | Inr (txId, d1) \<Rightarrow>
                  (case attempt fault 2
                          (account_update_decrement (sub_accountId s) (sub_amount s) d1) of
                     Inl e \<Rightarrow> (ErrorProcessing subId e, d1)
                   | Inr d2 \<Rightarrow>
                       (case attempt fault 3
                               (subscription_update subId (next_billing_date s) d2) of
                          Inl e \<Rightarrow> (ErrorProcessing subId e, d2)
                        | Inr d3 \<Rightarrow> (Processed subId, d3))))))"

text \<open>The loop over the subscriptions that were found due; \<open>faults\<close> gives each one its fault.\<close>

fun process_due ::
  "(string \<Rightarrow> nat option) \<Rightarrow> (string \<times> subscription) list \<Rightarrow> db \<Rightarrow> outcome list \<times> db" where
  "process_due faults [] d = ([], d)"
| "process_due faults (row # rest) d =
     (case process_subscription (faults (fst row)) row d of
        (out, d1) \<Rightarrow>
          (case process_due faults rest d1 of
             (outs, d2) \<Rightarrow> (out # outs, d2)))"

text \<open>
  The whole run. \<open>now\<close> is the clock's \<^verbatim>\<open>new Date()\<close>; \<open>findManyFails\<close> makes the
  first query throw, which the outer catch logs.
\<close>

definition processSubscriptions ::
  "date \<Rightarrow> bool \<Rightarrow> (string \<Rightarrow> nat option) \<Rightarrow> db \<Rightarrow> error + outcome list \<times> db" where
  "processSubscriptions now findManyFails faults d =
     (case (if findManyFails then Inl StorageFailure
            else Inr (subscription_findMany now d)) of
        Inl e \<Rightarrow> Inr ([ErrorInProcessSubscriptions e], d)
      | Inr dueSubscriptions \<Rightarrow> Inr (process_due faults dueSubscriptions d))"

section \<open>The ledger of the specification\<close>

text \<open>
  The specification's delta function, in its own words: the amount for INCOME, its
  negation for EXPENSE, nothing for TRANSFER.
\<close>

fun delta :: "tx_type \<Rightarrow> rat \<Rightarrow> rat" where
  "delta INCOME a = a"
| "delta EXPENSE a = - a"
| "delta TRANSFER a = 0"

text \<open>The cached balance of an account, 0 when there is no such account.\<close>

definition balance_of :: "db \<Rightarrow> string \<Rightarrow> rat" where
  "balance_of d a = (case map_of (accounts d) a of None \<Rightarrow> 0 | Some acc \<Rightarrow> balance acc)"

text \<open>
  The sum of the signed amounts of the INCOME and EXPENSE transactions that reference
  an account.
\<close>

definition signed :: "transaction \<Rightarrow> rat" where
  "signed t = (if txType t = INCOME then amount t else - amount t)"

definition ledger_sum :: "db \<Rightarrow> string \<Rightarrow> rat" where
  "ledger_sum d a =
     sum_list (map (\<lambda>(i, t). signed t)
       (filter (\<lambda>(i, t). accountId t = a \<and> (txType t = INCOME \<or> txType t = EXPENSE))
          (transactions d)))"

text \<open>The same sum, transaction by transaction: what one transaction adds for account \<open>a\<close>.\<close>

definition contribution :: "string \<Rightarrow> transaction \<Rightarrow> rat" where
  "contribution a t = (if accountId t = a then delta (txType t) (amount t) else 0)"

definition balanced :: "db \<Rightarrow> bool" where
  "balanced d = list_all (\<lambda>a. balance_of d a = ledger_sum d a) (map fst (accounts d))"

text \<open>The primary key of the transaction table.\<close>

definition primary_keys :: "db \<Rightarrow> bool" where
  "primary_keys d = distinct (map fst (transactions d))"

text \<open>Requests to the three routes, each with the fault of its handler, run in a row.\<close>

datatype request =
    POST string create_body
  | PUT string nat update_body
  | DELETE string nat

fun handle :: "nat option \<Rightarrow> request \<Rightarrow> db \<Rightarrow> response \<times> db" where
  "handle fault (POST userId body) d = post_transaction fault userId body d"
| "handle fault (PUT userId txId body) d = put_transaction fault userId txId body d"
| "handle fault (DELETE userId txId) d = delete_transaction fault userId txId d"

fun run :: "(nat option \<times> request) list \<Rightarrow> db \<Rightarrow> response list \<times> db" where
  "run [] d = ([], d)"
| "run (fr # rest) d =
     (case handle (fst fr) (snd fr) d of
        (resp, d1) \<Rightarrow>
          (case run rest d1 of
             (resps, d2) \<Rightarrow> (resp # resps, d2)))"

text \<open>
  What a run of the processor is expected to do. A due row can be billed when its
  foreign keys hold; the expense expected for it takes the currency of its account;
  \<open>charged a subs\<close> is what the rows of \<open>subs\<close> cost account \<open>a\<close>; \<open>emitted_for\<close>
  counts the transactions that point back to a subscription; \<open>subject\<close> is the
  subscription an outcome is about.
\<close>

definition payable :: "db \<Rightarrow> string \<times> subscription \<Rightarrow> bool" where
  "payable d row =
     (references_ok (sub_accountId (snd row)) (sub_categoryId (snd row)) d
      \<and> map_of (subscriptions d) (fst row) \<noteq> None)"

definition expected_expense :: "db \<Rightarrow> string \<times> subscription \<Rightarrow> transaction" where
  "expected_expense d row =
     subscription_expense (fst row) (snd row)
       (the (map_of (accounts d) (sub_accountId (snd row))))"

definition charged :: "string \<Rightarrow> (string \<times> subscription) list \<Rightarrow> rat" where
  "charged a subs =
     sum_list (map (\<lambda>row. if sub_accountId (snd row) = a then sub_amount (snd row) else 0) subs)"

definition emitted_for :: "string \<Rightarrow> db \<Rightarrow> nat" where
  "emitted_for subId d =
     length (filter (\<lambda>t. map_option subscriptionId (metadata t) = Some subId)
               (map snd (transactions d)))"

fun subject :: "outcome \<Rightarrow> string option" where
  "subject (Processed subId) = Some subId"
| "subject (AccountNotFound subId) = Some subId"
| "subject (ErrorProcessing subId e) = Some subId"
| "subject (ErrorInProcessSubscriptions e) = None"

section \<open>Scenarios\<close>

text \<open>
  The states and requests of the specification's scenarios: account A in USD with
  no transaction, a second account B, an expense of 50, and the change of its amount
  to 30.
\<close>

definition day :: "int \<Rightarrow> nat \<Rightarrow> nat \<Rightarrow> date" where
  "day y m d = \<lparr>fullYear = y, monthIndex = m, dayOfMonth = d, msOfDay = 0\<rparr>"

definition account_A :: account where
  "account_A = \<lparr>acc_userId = ''u1'', acc_currency = ''USD'', balance = 0, acc_isActive = True\<rparr>"

definition db_A :: db where
  "db_A = \<lparr>accounts = [(''A'', account_A), (''B'', account_A\<lparr>acc_currency := ''ARS''\<rparr>)],
           categories = [], transactions = [], subscriptions = []\<rparr>"

definition expense_50 :: create_body where
  "expense_50 = \<lparr>c_amount = 50, c_description = None, c_type = EXPENSE,
                  c_date = day 2024 0 15, c_accountId = ''A'', c_categoryId = None\<rparr>"

definition no_change :: update_body where
  "no_change = \<lparr>u_amount = None, u_description = None, u_type = None, u_date = None,
                 u_accountId = None, u_categoryId = None\<rparr>"

definition amount_30 :: update_body where
  "amount_30 = no_change\<lparr>u_amount := Some 30\<rparr>"

definition move_to_B :: update_body where
  "move_to_B = no_change\<lparr>u_accountId := Some ''B''\<rparr>"

definition to_transfer :: update_body where
  "to_transfer = no_change\<lparr>u_type := Some TRANSFER\<rparr>"

definition transfer_70 :: create_body where
  "transfer_70 = expense_50\<lparr>c_amount := 70, c_type := TRANSFER\<rparr>"

text \<open>The state after the expense of 50 was posted to A: transaction 1, balance \<open>- 50\<close>.\<close>

definition db_A1 :: db where
  "db_A1 = snd (post_transaction None ''u1'' expense_50 db_A)"

text \<open>The expense is posted, changed to 30, and moved to B.\<close>

definition scenario_requests :: "(nat option \<times> request) list" where
  "scenario_requests =
     [(None, POST ''u1'' expense_50), (None, PUT ''u1'' 1 amount_30),
      (None, PUT ''u1'' 1 move_to_B)]"

text \<open>
  The scheduler's scenarios: subscription S of 20 a month against account A with
  balance 100, due on 2024-01-01; the same three months late; and a batch whose first
  subscription names an account that is gone.
\<close>

definition subscription_S :: subscription where
  "subscription_S =
     \<lparr>sub_userId = ''u1'', sub_name = ''Music'', sub_description = None, sub_amount = 20,
      billingCycle = MONTHLY, nextBillingDate = day 2024 0 1, sub_accountId = ''A'',
      sub_categoryId = None, sub_isActive = True\<rparr>"

definition db_S :: db where
  "db_S = \<lparr>accounts = [(''A'', account_A\<lparr>balance := 100\<rparr>)], categories = [],
           transactions = [], subscriptions = [(''S'', subscription_S)]\<rparr>"

definition db_overdue :: db where
  "db_overdue = db_S\<lparr>subscriptions :=
                   [(''S'', subscription_S\<lparr>nextBillingDate := day 2023 9 1\<rparr>)]\<rparr>"

definition db_batch :: db where
  "db_batch = db_S\<lparr>subscriptions :=
                 [(''Z'', subscription_S\<lparr>sub_accountId := ''gone''\<rparr>),
                  (''S'', subscription_S)]\<rparr>"

definition new_description :: update_body where
  "new_description = no_change\<lparr>u_description := Some ''rent''\<rparr>"

text \<open>Subscription S with its billing date on January 31, 2023.\<close>

definition db_jan31 :: db where
  "db_jan31 = db_S\<lparr>subscriptions :=
                 [(''S'', subscription_S\<lparr>nextBillingDate := day 2023 0 31\<rparr>)]\<rparr>"

definition no_faults :: "string \<Rightarrow> nat option" where
  "no_faults subId = None"

text \<open>The state after a transfer of 70 was posted to A instead: transaction 1, balance 0.\<close>

definition db_T :: db where
  "db_T = snd (post_transaction None ''u1'' transfer_70 db_A)"

section \<open>Properties\<close>

subsection \<open>Storage calls\<close>

lemma attempt_Inr: "attempt fault n r = Inr x \<Longrightarrow> r = Inr x"
  by (simp add: attempt_def split: if_splits)

lemma attempt_None [simp]: "attempt None n r = r"
  by (simp add: attempt_def)

lemma foldr_max_ge: "k \<in> set ks \<Longrightarrow> k \<le> foldr max ks (0::nat)"
  by (induction ks) auto

lemma fresh_id_new: "map_of rows (fresh_id rows) = None"
proof -
  have "fresh_id rows \<notin> set (map fst rows)"
    using foldr_max_ge [of "fresh_id rows" "map fst rows"] by (auto simp: fresh_id_def)
  then show ?thesis by (simp add: map_of_eq_None_iff)
qed

lemma increment_balance_of:
  "account_update_increment a x d = Inr d' \<Longrightarrow>
   balance_of d' b = balance_of d b + (if b = a then x else 0)"
  by (auto simp: account_update_increment_def balance_of_def update_conv' split: option.splits)

lemma map_of_Some_key: "map_of al k = Some v \<Longrightarrow> k \<in> fst ` set al"
  by (metis map_of_eq_None_iff option.distinct(1))

lemma increment_tables:
  "account_update_increment a x d = Inr d' \<Longrightarrow>
   transactions d' = transactions d \<and> subscriptions d' = subscriptions d
   \<and> categories d' = categories d \<and> map fst (accounts d') = map fst (accounts d)"
  by (auto simp: account_update_increment_def update_keys
        split: option.splits dest: map_of_Some_key)

lemma create_tables:
  "transaction_create t d = Inr (i, d') \<Longrightarrow>
   accounts d' = accounts d \<and> subscriptions d' = subscriptions d \<and> categories d' = categories d
   \<and> transactions d' = transactions d @ [(i, t)] \<and> i = fresh_id (transactions d)"
  by (auto simp: transaction_create_def Let_def split: if_splits)

lemma update_tables:
  "transaction_update i u d = Inr d' \<Longrightarrow>
   accounts d' = accounts d \<and> subscriptions d' = subscriptions d \<and> categories d' = categories d
   \<and> (\<exists>t. map_of (transactions d) i = Some t
          \<and> transactions d' = AList.update i (apply_update u t) (transactions d))"
  by (auto simp: transaction_update_def Let_def split: if_splits option.splits)

lemma delete_tables:
  "transaction_delete i d = Inr d' \<Longrightarrow>
   accounts d' = accounts d \<and> subscriptions d' = subscriptions d \<and> categories d' = categories d
   \<and> map_of (transactions d) i \<noteq> None
   \<and> transactions d' = AList.delete i (transactions d)"
  by (auto simp: transaction_delete_def split: option.splits)

lemma balance_of_accounts: "accounts d' = accounts d \<Longrightarrow> balance_of d' = balance_of d"
  by (auto simp: balance_of_def fun_eq_iff)

lemma findFirst_Some:
  "transaction_findFirst i u d = Some t \<Longrightarrow> map_of (transactions d) i = Some t"
  by (auto simp: transaction_findFirst_def split: option.splits if_splits)

subsection \<open>What a successful request did\<close>

lemma post_Created:
  assumes "post_transaction fault userId body d = (Created i, d')"
  shows "\<exists>account. post_writes fault userId body account d = (Created i, d')"
  using assms
  by (auto simp: post_transaction_def CreateTransactionSchema_def
        split: if_splits sum.splits option.splits bool.splits)

lemma post_writes_Created:
  assumes "post_writes fault userId body account d = (Created i, d')"
  shows "\<exists>d1. transaction_create (create_data userId body account) d = Inr (i, d1) \<and>
           (if c_type body = TRANSFER then d' = d1
            else account_update_increment (c_accountId body)
                    (delta (c_type body) (c_amount body)) d1 = Inr d')"
  using assms
  by (cases "c_type body")
     (auto simp: post_writes_def Let_def
        split: if_splits sum.splits prod.splits dest!: attempt_Inr)

lemma post_outcomes:
  "post_transaction fault userId body d = (r, d') \<Longrightarrow>
   (\<exists>i. r = Created i) \<or> r = ServerError \<or> (r = NotFound \<and> d' = d)"
  by (auto simp: post_transaction_def post_writes_def Let_def
        split: if_splits sum.splits option.splits bool.splits prod.splits)

lemma put_balances_Success:
  assumes "put_balances fault old u d = (Success, d')"
  shows "transactions d' = transactions d \<and> map fst (accounts d') = map fst (accounts d)
       \<and> subscriptions d' = subscriptions d \<and> categories d' = categories d
       \<and> (\<forall>a. balance_of d' a =
               balance_of d a
               + (if a = accountId old then - delta (txType old) (amount old) else 0)
               + (if a = accountId (apply_update u old)
                  then delta (txType (apply_update u old)) (amount (apply_update u old)) else 0))"
proof (cases "u_amount u \<noteq> None \<or> u_type u \<noteq> None \<or> u_accountId u \<noteq> None")
  case False
  with assms have "d' = d" by (simp add: put_balances_def)
  moreover from False have "accountId (apply_update u old) = accountId old
      \<and> txType (apply_update u old) = txType old \<and> amount (apply_update u old) = amount old"
    by (simp add: apply_update_def)
  ultimately show ?thesis by simp
next
  case True
  define new where "new = apply_update u old"
  have new: "amount new = (case u_amount u of None \<Rightarrow> amount old | Some a \<Rightarrow> a)"
    "txType new = (case u_type u of None \<Rightarrow> txType old | Some ty \<Rightarrow> ty)"
    "accountId new = (case u_accountId u of None \<Rightarrow> accountId old | Some a \<Rightarrow> a)"
    by (simp_all add: new_def apply_update_def)
  define d1 where "d1 = (if txType old \<noteq> TRANSFER
      then attempt fault 4 (account_update_increment (accountId old)
             (if txType old = EXPENSE then amount old else - amount old) d)
      else Inr d)"
  from assms True obtain dm where dm: "d1 = Inr dm"
    and rest: "(if txType new \<noteq> TRANSFER
         then (case attempt fault 5 (account_update_increment (accountId new)
                       (if txType new = EXPENSE then - amount new else amount new) dm) of
                 Inl e \<Rightarrow> (ServerError, dm) | Inr d2 \<Rightarrow> (Success, d2))
         else (Success, dm)) = (Success, d')"
    unfolding put_balances_def d1_def [symmetric] Let_def new [symmetric]
    by (cases d1) (simp_all)
  have step1: "transactions dm = transactions d \<and> map fst (accounts dm) = map fst (accounts d)
       \<and> subscriptions dm = subscriptions d \<and> categories dm = categories d
       \<and> (\<forall>a. balance_of dm a = balance_of d a
               + (if a = accountId old then - delta (txType old) (amount old) else 0))"
  proof (cases "txType old = TRANSFER")
    case True
    with dm show ?thesis by (simp add: d1_def)
  next
    case False
    with dm have "account_update_increment (accountId old)
             (if txType old = EXPENSE then amount old else - amount old) d = Inr dm"
      by (auto simp: d1_def dest: attempt_Inr)
    from increment_tables [OF this] increment_balance_of [OF this] False
    show ?thesis by (cases "txType old") auto
  qed
  have step2: "transactions d' = transactions dm \<and> map fst (accounts d') = map fst (accounts dm)
       \<and> subscriptions d' = subscriptions dm \<and> categories d' = categories dm
       \<and> (\<forall>a. balance_of d' a = balance_of dm a
               + (if a = accountId new then delta (txType new) (amount new) else 0))"
  proof (cases "txType new = TRANSFER")
    case True
    with rest show ?thesis by simp
  next
    case False
    with rest have "account_update_increment (accountId new)
             (if txType new = EXPENSE then - amount new else amount new) dm = Inr d'"
      by (auto split: sum.splits dest: attempt_Inr)
    from increment_tables [OF this] increment_balance_of [OF this] False
    show ?thesis by (cases "txType new") auto
  qed
  from step1 step2 show ?thesis unfolding new_def by simp
qed


lemma update_schema_Inr: "UpdateTransactionSchema body = Inr v \<Longrightarrow> v = body"
  by (auto simp: UpdateTransactionSchema_def split: option.splits if_splits)

lemma put_Success:
  assumes "put_transaction fault userId txId body d = (Success, d')"
  shows "\<exists>old d1. transaction_findFirst txId userId d = Some old
           \<and> transaction_update txId body d = Inr d1
           \<and> put_balances fault old body d1 = (Success, d')"
  using assms
  by (auto simp: put_transaction_def
        split: sum.splits option.splits bool.splits dest!: attempt_Inr update_schema_Inr)

lemma post_effect:
  assumes "post_transaction fault userId body d = (Created i, d')"
  shows "\<exists>account. transactions d' = transactions d @ [(i, create_data userId body account)]
           \<and> i = fresh_id (transactions d)
           \<and> map fst (accounts d') = map fst (accounts d)
           \<and> (\<forall>a. balance_of d' a = balance_of d a
                 + (if a = c_accountId body then delta (c_type body) (c_amount body) else 0))"
proof -
  from assms obtain account where "post_writes fault userId body account d = (Created i, d')"
    using post_Created by blast
  then obtain d1 where c: "transaction_create (create_data userId body account) d = Inr (i, d1)"
    and u: "if c_type body = TRANSFER then d' = d1
            else account_update_increment (c_accountId body)
                    (delta (c_type body) (c_amount body)) d1 = Inr d'"
    using post_writes_Created by blast
  note t = create_tables [OF c]
  have b1: "balance_of d1 = balance_of d"
    using t by (intro balance_of_accounts) simp
  have "transactions d' = transactions d1 \<and> map fst (accounts d') = map fst (accounts d1)
      \<and> (\<forall>a. balance_of d' a = balance_of d1 a
            + (if a = c_accountId body then delta (c_type body) (c_amount body) else 0))"
  proof (cases "c_type body = TRANSFER")
    case True
    with u show ?thesis by simp
  next
    case False
    with u have i: "account_update_increment (c_accountId body)
                    (delta (c_type body) (c_amount body)) d1 = Inr d'" by simp
    from increment_balance_of [OF i] increment_tables [OF i] show ?thesis by simp
  qed
  with t b1 show ?thesis by (intro exI [of _ account]) simp
qed

lemma put_effect:
  assumes "put_transaction fault userId txId body d = (Success, d')"
  shows "\<exists>old. transaction_findFirst txId userId d = Some old
           \<and> transactions d' = AList.update txId (apply_update body old) (transactions d)
           \<and> map fst (accounts d') = map fst (accounts d)
           \<and> (\<forall>a. balance_of d' a = balance_of d a
                 + (if a = accountId old then - delta (txType old) (amount old) else 0)
                 + (if a = accountId (apply_update body old)
                    then delta (txType (apply_update body old)) (amount (apply_update body old))
                    else 0))"
proof -
  from put_Success [OF assms] obtain old d1 where
    f: "transaction_findFirst txId userId d = Some old"
    and u: "transaction_update txId body d = Inr d1"
    and b: "put_balances fault old body d1 = (Success, d')"
    by blast
  from update_tables [OF u] findFirst_Some [OF f]
  have t: "accounts d1 = accounts d"
    "transactions d1 = AList.update txId (apply_update body old) (transactions d)"
    by auto
  from t(1) have "balance_of d1 = balance_of d" by (rule balance_of_accounts)
  with put_balances_Success [OF b] t f show ?thesis by auto
qed

lemma delete_effect:
  assumes "delete_transaction fault userId txId d = (Success, d')"
  shows "\<exists>t. transaction_findFirst txId userId d = Some t
           \<and> transactions d' = AList.delete txId (transactions d)
           \<and> map fst (accounts d') = map fst (accounts d)
           \<and> (\<forall>a. balance_of d' a = balance_of d a
                 + (if a = accountId t then - delta (txType t) (amount t) else 0))"
proof -
  from assms obtain t d1 where f: "transaction_findFirst txId userId d = Some t"
    and del: "transaction_delete txId d = Inr d1"
    and u: "if txType t = TRANSFER then d' = d1
            else account_update_increment (accountId t)
                   (if txType t = EXPENSE then amount t else - amount t) d1 = Inr d'"
    by (auto simp: delete_transaction_def Let_def
          split: sum.splits option.splits if_splits dest!: attempt_Inr)
  note dt = delete_tables [OF del]
  then have b1: "balance_of d1 = balance_of d" by (intro balance_of_accounts) simp
  show ?thesis
  proof (cases "txType t = TRANSFER")
    case True
    with u dt b1 f show ?thesis by auto
  next
    case False
    with u have i: "account_update_increment (accountId t)
                   (if txType t = EXPENSE then amount t else - amount t) d1 = Inr d'" by simp
    from dt b1 f False increment_balance_of [OF i] increment_tables [OF i]
    show ?thesis by (cases "txType t") auto
  qed
qed

lemma put_balances_outcomes:
  "put_balances fault old body d = (r, d') \<Longrightarrow> r = Success \<or> r = ServerError"
  unfolding put_balances_def Let_def
  by (simp split: if_splits sum.splits)

lemma put_outcomes:
  assumes "put_transaction fault userId txId body d = (r, d')"
  shows "r = Success \<or> r = ServerError \<or> (r = NotFound \<and> d' = d)"
proof (cases "\<exists>old d1. put_balances fault old body d1 = (r, d')")
  case True
  then show ?thesis using put_balances_outcomes by blast
next
  case False
  then have "\<And>old d1. put_balances fault old body d1 \<noteq> (r, d')" by blast
  with assms show ?thesis
    unfolding put_transaction_def
    by (auto split: sum.splits option.splits bool.splits dest!: update_schema_Inr)
qed

lemma delete_outcomes:
  "delete_transaction fault userId txId d = (r, d') \<Longrightarrow>
   r = Success \<or> r = ServerError \<or> (r = NotFound \<and> d' = d)"
  by (auto simp: delete_transaction_def Let_def
        split: if_splits sum.splits option.splits)

subsection \<open>Creating a transaction\<close>

text \<open>
  C2. A POST that answers 201 changes the balance of the body's account by
  \<open>delta type amount\<close> and no other balance. For a TRANSFER the account table is
  the one before; otherwise the state is the one after the create with exactly one
  increment of the account by \<open>delta type amount\<close> applied to it.
\<close>

theorem post_balance_delta:
  assumes "post_transaction fault userId body d = (Created i, d')"
  shows "(\<forall>a. balance_of d' a =
               balance_of d a
               + (if a = c_accountId body then delta (c_type body) (c_amount body) else 0))
       \<and> (c_type body = TRANSFER \<longrightarrow> accounts d' = accounts d)
       \<and> (c_type body \<noteq> TRANSFER \<longrightarrow>
            (\<exists>account d1.
               transaction_create (create_data userId body account) d = Inr (i, d1)
               \<and> account_update_increment (c_accountId body)
                    (delta (c_type body) (c_amount body)) d1 = Inr d'))"
proof -
  from assms obtain account where "post_writes fault userId body account d = (Created i, d')"
    using post_Created by blast
  then obtain d1 where c: "transaction_create (create_data userId body account) d = Inr (i, d1)"
    and u: "if c_type body = TRANSFER then d' = d1
            else account_update_increment (c_accountId body)
                    (delta (c_type body) (c_amount body)) d1 = Inr d'"
    using post_writes_Created by blast
  from post_effect [OF assms] have "\<forall>a. balance_of d' a =
               balance_of d a
               + (if a = c_accountId body then delta (c_type body) (c_amount body) else 0)"
    by blast
  moreover from u create_tables [OF c] have "c_type body = TRANSFER \<longrightarrow> accounts d' = accounts d"
    by simp
  moreover from u c have "c_type body \<noteq> TRANSFER \<longrightarrow>
            (\<exists>account d1.
               transaction_create (create_data userId body account) d = Inr (i, d1)
               \<and> account_update_increment (c_accountId body)
                    (delta (c_type body) (c_amount body)) d1 = Inr d')"
    by (cases "c_type body = TRANSFER") (simp, metis)
  ultimately show ?thesis by blast
qed

theorem post_balance_delta_witness:
  "fst (post_transaction None ''u1'' expense_50 db_A) = Created 1
   \<and> balance_of db_A ''A'' = 0
   \<and> balance_of (snd (post_transaction None ''u1'' expense_50 db_A)) ''A'' = - 50
   \<and> balance_of (snd (post_transaction None ''u1'' expense_50 db_A)) ''B'' = 0"
proof -
  have r: "fst (post_transaction None ''u1'' expense_50 db_A) = Created 1"
    by code_simp
  then have "post_transaction None ''u1'' expense_50 db_A
      = (Created 1, snd (post_transaction None ''u1'' expense_50 db_A))"
    by (simp add: prod_eq_iff)
  from post_balance_delta [OF this]
  have "\<forall>a. balance_of (snd (post_transaction None ''u1'' expense_50 db_A)) a =
          balance_of db_A a + (if a = ''A'' then - 50 else 0)"
    by (simp add: expense_50_def)
  moreover have "balance_of db_A ''A'' = 0" "balance_of db_A ''B'' = 0"
    by code_simp+
  ultimately show ?thesis using r by simp
qed


lemma apply_update_fields:
  "amount (apply_update u t) = (case u_amount u of None \<Rightarrow> amount t | Some a \<Rightarrow> a)"
  "txType (apply_update u t) = (case u_type u of None \<Rightarrow> txType t | Some ty \<Rightarrow> ty)"
  "accountId (apply_update u t) = (case u_accountId u of None \<Rightarrow> accountId t | Some a \<Rightarrow> a)"
  "tx_userId (apply_update u t) = tx_userId t"
  by (simp_all add: apply_update_def)

lemma put_balances_transfer:
  assumes "txType old = TRANSFER" "txType (apply_update u old) = TRANSFER"
  shows "snd (put_balances fault old u d) = d"
  using assms by (simp add: put_balances_def apply_update_fields)

lemma put_shape:
  assumes "put_transaction fault userId txId body d = (r, d')"
  shows "d' = d \<or> (\<exists>old d1. transaction_findFirst txId userId d = Some old
           \<and> transaction_update txId body d = Inr d1
           \<and> put_balances fault old body d1 = (r, d'))"
  using assms unfolding put_transaction_def
  by (auto split: sum.splits option.splits bool.splits dest!: update_schema_Inr attempt_Inr)

lemma put_both_transfer:
  assumes "transaction_findFirst txId userId d = Some old"
    and "txType old = TRANSFER" "txType (apply_update body old) = TRANSFER"
  shows "accounts (snd (put_transaction fault userId txId body d)) = accounts d"
proof -
  obtain r d' where p: "put_transaction fault userId txId body d = (r, d')"
    by (cases "put_transaction fault userId txId body d")
  from put_shape [OF p] show ?thesis
  proof
    assume "d' = d"
    with p show ?thesis by simp
  next
    assume "\<exists>old d1. transaction_findFirst txId userId d = Some old
           \<and> transaction_update txId body d = Inr d1
           \<and> put_balances fault old body d1 = (r, d')"
    with assms(1) obtain d1 where u: "transaction_update txId body d = Inr d1"
      and b: "put_balances fault old body d1 = (r, d')" by auto
    from put_balances_transfer [OF assms(2,3), of fault d1] b have "d' = d1" by simp
    with update_tables [OF u] p show ?thesis by simp
  qed
qed

lemma post_transfer:
  assumes "c_type body = TRANSFER"
  shows "accounts (snd (post_transaction fault userId body d)) = accounts d"
proof -
  have w: "accounts (snd (post_writes fault userId body account d)) = accounts d" for account
    using assms
    by (auto simp: post_writes_def split: sum.splits prod.splits
          dest!: attempt_Inr create_tables)
  show ?thesis
    unfolding post_transaction_def
    by (auto split: sum.splits option.splits bool.splits simp: w CreateTransactionSchema_def)
qed

lemma delete_transfer:
  assumes "transaction_findFirst txId userId d = Some t" "txType t = TRANSFER"
  shows "accounts (snd (delete_transaction fault userId txId d)) = accounts d"
  using assms unfolding delete_transaction_def
  by (auto split: sum.splits option.splits dest!: attempt_Inr delete_tables)

lemma post_account_exists:
  assumes "post_transaction fault userId body d = (Created i, d')"
  shows "map_of (accounts d) (c_accountId body) \<noteq> None"
  using assms
  by (auto simp: post_transaction_def CreateTransactionSchema_def account_findFirst_def
        split: if_splits sum.splits option.splits bool.splits dest!: attempt_Inr)

lemma delete_succeeds:
  assumes "transaction_findFirst txId userId d = Some t"
    and "txType t \<noteq> TRANSFER \<longrightarrow> map_of (accounts d) (accountId t) \<noteq> None"
  shows "\<exists>d'. delete_transaction None userId txId d = (Success, d')"
proof -
  from assms(1) have m: "map_of (transactions d) txId = Some t" by (rule findFirst_Some)
  then obtain d1 where del: "transaction_delete txId d = Inr d1"
    by (simp add: transaction_delete_def)
  from delete_tables [OF del] have a: "accounts d1 = accounts d" by simp
  show ?thesis
  proof (cases "txType t = TRANSFER")
    case True
    with assms(1) del show ?thesis by (simp add: delete_transaction_def)
  next
    case False
    with assms(2) a obtain acc where "map_of (accounts d1) (accountId t) = Some acc" by auto
    then obtain d2 where "account_update_increment (accountId t)
        (if txType t = EXPENSE then amount t else - amount t) d1 = Inr d2"
      by (simp add: account_update_increment_def)
    with False assms(1) del show ?thesis
      by (simp add: delete_transaction_def Let_def)
  qed
qed

subsection \<open>Updating a transaction\<close>

text \<open>
  C3. A PUT that answers 200 found the old row, stored the new one, and changed every
  balance by the old row's reverted delta on the old account plus the new row's delta
  on the new account. When amount, type and account are what they were, no balance
  changes. When the account changes, the old account loses the whole old
  contribution and the new account gets the whole new one.
\<close>

theorem put_balance_effect:
  assumes "put_transaction fault userId txId body d = (Success, d')"
  shows "\<exists>oldTx newTx.
           transaction_findFirst txId userId d = Some oldTx
         \<and> newTx = apply_update body oldTx
         \<and> map_of (transactions d') txId = Some newTx
         \<and> (\<forall>a. balance_of d' a =
                 balance_of d a
                 + (if a = accountId oldTx then - delta (txType oldTx) (amount oldTx) else 0)
                 + (if a = accountId newTx then delta (txType newTx) (amount newTx) else 0))
         \<and> (amount newTx = amount oldTx \<and> txType newTx = txType oldTx
              \<and> accountId newTx = accountId oldTx \<longrightarrow>
              (\<forall>a. balance_of d' a = balance_of d a))
         \<and> (accountId newTx \<noteq> accountId oldTx \<longrightarrow>
              balance_of d' (accountId oldTx) =
                balance_of d (accountId oldTx) - delta (txType oldTx) (amount oldTx)
            \<and> balance_of d' (accountId newTx) =
                balance_of d (accountId newTx) + delta (txType newTx) (amount newTx))"
proof -
  from put_effect [OF assms] obtain oldTx where
    f: "transaction_findFirst txId userId d = Some oldTx"
    and t: "transactions d' = AList.update txId (apply_update body oldTx) (transactions d)"
    and b: "\<forall>a. balance_of d' a = balance_of d a
                 + (if a = accountId oldTx then - delta (txType oldTx) (amount oldTx) else 0)
                 + (if a = accountId (apply_update body oldTx)
                    then delta (txType (apply_update body oldTx)) (amount (apply_update body oldTx))
                    else 0)"
    by blast
  from t have m: "map_of (transactions d') txId = Some (apply_update body oldTx)"
    by (simp add: update_conv')
  from b have same: "amount (apply_update body oldTx) = amount oldTx
      \<and> txType (apply_update body oldTx) = txType oldTx
      \<and> accountId (apply_update body oldTx) = accountId oldTx \<longrightarrow>
      (\<forall>a. balance_of d' a = balance_of d a)"
    by simp
  from b have moved: "accountId (apply_update body oldTx) \<noteq> accountId oldTx \<longrightarrow>
              balance_of d' (accountId oldTx) =
                balance_of d (accountId oldTx) - delta (txType oldTx) (amount oldTx)
            \<and> balance_of d' (accountId (apply_update body oldTx)) =
                balance_of d (accountId (apply_update body oldTx))
                + delta (txType (apply_update body oldTx)) (amount (apply_update body oldTx))"
    by simp
  from f m b same moved show ?thesis by blast
qed

theorem put_balance_effect_witness:
  "put_transaction None ''u1'' 1 move_to_B db_A1
     = (Success, snd (put_transaction None ''u1'' 1 move_to_B db_A1))
   \<and> balance_of db_A1 ''A'' = - 50 \<and> balance_of db_A1 ''B'' = 0
   \<and> balance_of (snd (put_transaction None ''u1'' 1 move_to_B db_A1)) ''A'' = 0
   \<and> balance_of (snd (put_transaction None ''u1'' 1 move_to_B db_A1)) ''B'' = - 50
   \<and> put_transaction None ''u1'' 1 new_description db_A1
     = (Success, snd (put_transaction None ''u1'' 1 new_description db_A1))
   \<and> balance_of (snd (put_transaction None ''u1'' 1 new_description db_A1)) ''A'' = - 50
   \<and> put_transaction None ''u1'' 1 amount_30 db_A1
     = (Success, snd (put_transaction None ''u1'' 1 amount_30 db_A1))
   \<and> balance_of (snd (put_transaction None ''u1'' 1 amount_30 db_A1)) ''A'' = - 30"
proof -
  define old where "old = create_data ''u1'' expense_50 account_A"
  have r: "fst (put_transaction None ''u1'' 1 move_to_B db_A1) = Success"
    "fst (put_transaction None ''u1'' 1 new_description db_A1) = Success"
    "fst (put_transaction None ''u1'' 1 amount_30 db_A1) = Success"
    by code_simp+
  then have p: "put_transaction None ''u1'' 1 move_to_B db_A1
     = (Success, snd (put_transaction None ''u1'' 1 move_to_B db_A1))"
    "put_transaction None ''u1'' 1 new_description db_A1
     = (Success, snd (put_transaction None ''u1'' 1 new_description db_A1))"
    "put_transaction None ''u1'' 1 amount_30 db_A1
     = (Success, snd (put_transaction None ''u1'' 1 amount_30 db_A1))"
    by (simp_all add: prod_eq_iff)
  have f: "transaction_findFirst 1 ''u1'' db_A1 = Some old"
    unfolding old_def by code_simp
  have new: "accountId (apply_update move_to_B old) = ''B''"
    "txType (apply_update move_to_B old) = EXPENSE"
    "amount (apply_update move_to_B old) = 50"
    "accountId old = ''A''" "txType old = EXPENSE" "amount old = 50"
    "accountId (apply_update new_description old) = ''A''"
    "txType (apply_update new_description old) = EXPENSE"
    "amount (apply_update new_description old) = 50"
    "accountId (apply_update amount_30 old) = ''A''"
    "txType (apply_update amount_30 old) = EXPENSE"
    "amount (apply_update amount_30 old) = 30"
    unfolding old_def by code_simp+
  have b: "balance_of db_A1 ''A'' = - 50" "balance_of db_A1 ''B'' = 0"
    by code_simp+
  from put_balance_effect [OF p(1)] f new
  have 1: "balance_of (snd (put_transaction None ''u1'' 1 move_to_B db_A1)) ''A''
          = balance_of db_A1 ''A'' - delta EXPENSE 50
      \<and> balance_of (snd (put_transaction None ''u1'' 1 move_to_B db_A1)) ''B''
          = balance_of db_A1 ''B'' + delta EXPENSE 50"
    by auto
  from put_balance_effect [OF p(2)] f new
  have 2: "\<forall>a. balance_of (snd (put_transaction None ''u1'' 1 new_description db_A1)) a
          = balance_of db_A1 a"
    by auto
  from put_balance_effect [OF p(3)] f new
  have 3: "\<forall>a. balance_of (snd (put_transaction None ''u1'' 1 amount_30 db_A1)) a
          = balance_of db_A1 a + (if a = ''A'' then - delta EXPENSE 50 else 0)
            + (if a = ''A'' then delta EXPENSE 30 else 0)"
    by auto
  from 1 2 3 p b show ?thesis by simp
qed

subsection \<open>Deleting a transaction\<close>

lemma create_then_delete:
  assumes "post_transaction fault userId body d = (Created i, d1)"
  shows "\<exists>d2. delete_transaction None userId i d1 = (Success, d2)
           \<and> (\<forall>a. balance_of d2 a = balance_of d a)
           \<and> transactions d2 = transactions d"
proof -
  from post_effect [OF assms] obtain account where
    t: "transactions d1 = transactions d @ [(i, create_data userId body account)]"
    and i: "i = fresh_id (transactions d)"
    and k: "map fst (accounts d1) = map fst (accounts d)"
    and b: "\<forall>a. balance_of d1 a = balance_of d a
                 + (if a = c_accountId body then delta (c_type body) (c_amount body) else 0)"
    by blast
  define tx where "tx = create_data userId body account"
  have tx: "accountId tx = c_accountId body" "txType tx = c_type body"
    "amount tx = c_amount body" "tx_userId tx = userId"
    by (simp_all add: tx_def create_data_def)
  from i have new: "map_of (transactions d) i = None" by (simp add: fresh_id_new)
  with t have f: "transaction_findFirst i userId d1 = Some tx"
    by (simp add: transaction_findFirst_def map_add_def tx_def [symmetric] tx)
  from post_account_exists [OF assms] have "c_accountId body \<in> set (map fst (accounts d))"
    by (auto dest: map_of_Some_key)
  with k have "c_accountId body \<in> set (map fst (accounts d1))" by simp
  then have "map_of (accounts d1) (c_accountId body) \<noteq> None"
    by (simp add: map_of_eq_None_iff)
  with delete_succeeds [OF f] tx obtain d2 where
    del: "delete_transaction None userId i d1 = (Success, d2)" by auto
  from delete_effect [OF del] f have
    td: "transactions d2 = AList.delete i (transactions d1)"
    and b2: "\<forall>a. balance_of d2 a = balance_of d1 a
                 + (if a = accountId tx then - delta (txType tx) (amount tx) else 0)"
    by auto
  from new have "i \<notin> fst ` set (transactions d)" by (simp add: map_of_eq_None_iff)
  then have "AList.delete i (transactions d) = transactions d" by (rule delete_id)
  with td t have "transactions d2 = transactions d"
    by (simp add: AList.delete_eq)
  moreover from b b2 tx have "\<forall>a. balance_of d2 a = balance_of d a" by simp
  ultimately show ?thesis using del by blast
qed

text \<open>
  C4. A DELETE that answers 200 adds \<open>- delta type amount\<close> of the deleted row to its
  account. After a POST that answered 201, deleting the created transaction succeeds
  and leaves every balance, and the transaction table, as they were before the POST.
\<close>

theorem delete_inverts_create:
  "(delete_transaction fault userId txId d = (Success, d') \<longrightarrow>
      (\<exists>tx. transaction_findFirst txId userId d = Some tx
         \<and> (\<forall>a. balance_of d' a =
                 balance_of d a
                 + (if a = accountId tx then - delta (txType tx) (amount tx) else 0))))
   \<and> (post_transaction fault0 userId0 body d0 = (Created i, d1) \<longrightarrow>
      (\<exists>d2. delete_transaction None userId0 i d1 = (Success, d2)
         \<and> (\<forall>a. balance_of d2 a = balance_of d0 a)
         \<and> transactions d2 = transactions d0))"
  using delete_effect [of fault userId txId d d']
    create_then_delete [of fault0 userId0 body d0 i d1]
  by blast

theorem delete_inverts_create_witness:
  "post_transaction None ''u1'' expense_50 db_A = (Created 1, db_A1)
   \<and> balance_of db_A ''A'' = 0
   \<and> balance_of db_A1 ''A'' = - 50
   \<and> (\<exists>d2. delete_transaction None ''u1'' 1 db_A1 = (Success, d2)
         \<and> balance_of d2 ''A'' = 0 \<and> balance_of d2 ''A'' = balance_of db_A1 ''A'' + 50
         \<and> transactions d2 = [])"
proof -
  have p: "post_transaction None ''u1'' expense_50 db_A = (Created 1, db_A1)"
    unfolding db_A1_def prod_eq_iff by (simp, code_simp)
  have b: "balance_of db_A ''A'' = 0" "balance_of db_A1 ''A'' = - 50" "transactions db_A = []"
    by code_simp+
  have f: "transaction_findFirst 1 ''u1'' db_A1 = Some (create_data ''u1'' expense_50 account_A)"
    by code_simp
  have tx: "accountId (create_data ''u1'' expense_50 account_A) = ''A''"
    "txType (create_data ''u1'' expense_50 account_A) = EXPENSE"
    "amount (create_data ''u1'' expense_50 account_A) = 50"
    by code_simp+
  from p obtain d2 where del: "delete_transaction None ''u1'' 1 db_A1 = (Success, d2)"
    and b2: "\<forall>a. balance_of d2 a = balance_of db_A a"
    and t2: "transactions d2 = transactions db_A"
    using delete_inverts_create [where ?fault0.0 = None and ?userId0.0 = "''u1''"
        and body = expense_50 and ?d0.0 = db_A and i = 1 and ?d1.0 = db_A1]
    by blast
  from del f tx
  have "balance_of d2 ''A'' = balance_of db_A1 ''A'' + 50"
    using delete_inverts_create [where fault = None and userId = "''u1''" and txId = 1
        and d = db_A1 and d' = d2]
    by auto
  with del b2 t2 b p show ?thesis by auto
qed

subsection \<open>Transfers\<close>

text \<open>
  C5. A TRANSFER never moves a balance. Posting one, deleting one, and updating one
  into another leave the account table as it was, whatever the answer. In an update
  that answers 200, a TRANSFER on the old side leaves only the new row's
  contribution, and a TRANSFER on the new side leaves only the reverted old one.
\<close>

theorem transfer_no_balance_effect:
  "(c_type body = TRANSFER \<longrightarrow>
      accounts (snd (post_transaction fault userId body d)) = accounts d)
   \<and> (transaction_findFirst txId userId d = Some tx \<and> txType tx = TRANSFER \<longrightarrow>
      accounts (snd (delete_transaction fault userId txId d)) = accounts d)
   \<and> (transaction_findFirst txId userId d = Some tx \<and> txType tx = TRANSFER
        \<and> txType (apply_update ubody tx) = TRANSFER \<longrightarrow>
      accounts (snd (put_transaction fault userId txId ubody d)) = accounts d)
   \<and> (transaction_findFirst txId userId d = Some tx
        \<and> put_transaction fault userId txId ubody d = (Success, d') \<longrightarrow>
      (txType tx = TRANSFER \<longrightarrow>
         (\<forall>a. balance_of d' a = balance_of d a + contribution a (apply_update ubody tx)))
      \<and> (txType (apply_update ubody tx) = TRANSFER \<longrightarrow>
         (\<forall>a. balance_of d' a = balance_of d a - contribution a tx)))"
proof -
  have "transaction_findFirst txId userId d = Some tx
        \<and> put_transaction fault userId txId ubody d = (Success, d') \<longrightarrow>
      (txType tx = TRANSFER \<longrightarrow>
         (\<forall>a. balance_of d' a = balance_of d a + contribution a (apply_update ubody tx)))
      \<and> (txType (apply_update ubody tx) = TRANSFER \<longrightarrow>
         (\<forall>a. balance_of d' a = balance_of d a - contribution a tx))"
  proof
    assume h: "transaction_findFirst txId userId d = Some tx
        \<and> put_transaction fault userId txId ubody d = (Success, d')"
    then have "put_transaction fault userId txId ubody d = (Success, d')" by simp
    from put_effect [OF this] h
    have "\<forall>a. balance_of d' a = balance_of d a - contribution a tx
               + contribution a (apply_update ubody tx)"
      by (auto simp: contribution_def)
    then show "(txType tx = TRANSFER \<longrightarrow>
         (\<forall>a. balance_of d' a = balance_of d a + contribution a (apply_update ubody tx)))
      \<and> (txType (apply_update ubody tx) = TRANSFER \<longrightarrow>
         (\<forall>a. balance_of d' a = balance_of d a - contribution a tx))"
      by (simp add: contribution_def)
  qed
  then show ?thesis
    using post_transfer [of body fault userId d] delete_transfer [of txId userId d tx fault]
      put_both_transfer [of txId userId d tx ubody fault]
    by blast
qed

theorem transfer_no_balance_effect_witness:
  "accounts (snd (post_transaction (Some 3) ''u1'' transfer_70 db_A)) = accounts db_A
   \<and> accounts (snd (delete_transaction None ''u1'' 1 db_T)) = accounts db_T
   \<and> accounts (snd (put_transaction None ''u1'' 1 amount_30 db_T)) = accounts db_T
   \<and> put_transaction None ''u1'' 1 to_transfer db_A1
        = (Success, snd (put_transaction None ''u1'' 1 to_transfer db_A1))
   \<and> balance_of db_A1 ''A'' = - 50
   \<and> balance_of (snd (put_transaction None ''u1'' 1 to_transfer db_A1)) ''A'' = 0"
proof -
  have c: "c_type transfer_70 = TRANSFER" by code_simp
  have f: "transaction_findFirst 1 ''u1'' db_T = Some (create_data ''u1'' transfer_70 account_A)"
    by code_simp
  have ty: "txType (create_data ''u1'' transfer_70 account_A) = TRANSFER"
    "txType (apply_update amount_30 (create_data ''u1'' transfer_70 account_A)) = TRANSFER"
    by code_simp+
  have f1: "transaction_findFirst 1 ''u1'' db_A1 = Some (create_data ''u1'' expense_50 account_A)"
    by code_simp
  have "fst (put_transaction None ''u1'' 1 to_transfer db_A1) = Success" by code_simp
  then have p: "put_transaction None ''u1'' 1 to_transfer db_A1
        = (Success, snd (put_transaction None ''u1'' 1 to_transfer db_A1))"
    by (simp add: prod_eq_iff)
  have ty1: "txType (apply_update to_transfer (create_data ''u1'' expense_50 account_A)) = TRANSFER"
    by code_simp
  have k: "contribution ''A'' (create_data ''u1'' expense_50 account_A) = - 50"
    "balance_of db_A1 ''A'' = - 50"
    by code_simp+
  from c have 1: "accounts (snd (post_transaction (Some 3) ''u1'' transfer_70 db_A)) = accounts db_A"
    using transfer_no_balance_effect [where body = transfer_70 and d = db_A
        and fault = "Some 3" and userId = "''u1''"]
    by blast
  from f ty have 2: "accounts (snd (delete_transaction None ''u1'' 1 db_T)) = accounts db_T"
    using transfer_no_balance_effect [where d = db_T and txId = 1 and fault = None
        and userId = "''u1''" and tx = "create_data ''u1'' transfer_70 account_A"]
    by blast
  from f ty have 3: "accounts (snd (put_transaction None ''u1'' 1 amount_30 db_T)) = accounts db_T"
    using transfer_no_balance_effect [where d = db_T and txId = 1 and fault = None
        and userId = "''u1''" and tx = "create_data ''u1'' transfer_70 account_A"
        and ubody = amount_30]
    by blast
  from f1 p ty1
  have "\<forall>a. balance_of (snd (put_transaction None ''u1'' 1 to_transfer db_A1)) a
          = balance_of db_A1 a - contribution a (create_data ''u1'' expense_50 account_A)"
    using transfer_no_balance_effect [where d = db_A1 and txId = 1 and fault = None
        and userId = "''u1''" and tx = "create_data ''u1'' expense_50 account_A"
        and ubody = to_transfer
        and d' = "snd (put_transaction None ''u1'' 1 to_transfer db_A1)"]
    by blast
  with k have 4: "balance_of (snd (put_transaction None ''u1'' 1 to_transfer db_A1)) ''A'' = 0"
    by simp
  from 1 2 3 4 p k show ?thesis by simp
qed


subsection \<open>The ledger invariant\<close>

lemma ledger_sum_contribution:
  "ledger_sum d a = (\<Sum>(i, t)\<leftarrow>transactions d. contribution a t)"
proof -
  have c: "(if accountId t = a \<and> (txType t = INCOME \<or> txType t = EXPENSE) then signed t else 0)
      = contribution a t" for t
    by (cases "txType t") (simp_all add: contribution_def signed_def)
  have "(\<Sum>(i, t)\<leftarrow>filter (\<lambda>(i, t). accountId t = a \<and> (txType t = INCOME \<or> txType t = EXPENSE)) xs.
           signed t) = (\<Sum>(i, t)\<leftarrow>xs. contribution a t)" for xs :: "(nat \<times> transaction) list"
  proof (induction xs)
    case Nil
    then show ?case by simp
  next
    case (Cons x xs)
    with c [of "snd x"] show ?case by (cases x) (auto split: if_splits)
  qed
  then show ?thesis by (simp add: ledger_sum_def)
qed

lemma sum_list_update:
  fixes f :: "'v \<Rightarrow> rat"
  assumes "map_of xs k = Some v"
  shows "(\<Sum>(i, t)\<leftarrow>AList.update k v' xs. f t) = (\<Sum>(i, t)\<leftarrow>xs. f t) - f v + f v'"
  using assms by (induction xs) (auto split: if_splits)

lemma sum_list_delete:
  fixes f :: "'v \<Rightarrow> rat"
  assumes "distinct (map fst xs)" "map_of xs k = Some v"
  shows "(\<Sum>(i, t)\<leftarrow>AList.delete k xs. f t) = (\<Sum>(i, t)\<leftarrow>xs. f t) - f v"
  using assms
proof (induction xs)
  case Nil
  then show ?case by simp
next
  case (Cons x xs)
  show ?case
  proof (cases "fst x = k")
    case True
    with Cons.prems have "k \<notin> fst ` set xs" "snd x = v" by auto
    then have "AList.delete k xs = xs" "snd x = v" by simp_all
    with True show ?thesis by (cases x) (simp add: AList.delete_eq)
  next
    case False
    with Cons show ?thesis by (cases x) (auto simp: AList.delete_eq)
  qed
qed

lemma balanced_iff:
  "balanced d \<longleftrightarrow> (\<forall>a \<in> set (map fst (accounts d)). balance_of d a = ledger_sum d a)"
  by (simp add: balanced_def list_all_iff)

lemma balanced_step:
  assumes "balanced d" "map fst (accounts d') = map fst (accounts d)"
    and "\<forall>a. balance_of d' a - balance_of d a = ledger_sum d' a - ledger_sum d a"
  shows "balanced d'"
  unfolding balanced_iff
proof
  fix a assume "a \<in> set (map fst (accounts d'))"
  with assms(2) have "a \<in> set (map fst (accounts d))" by simp
  with assms(1) have "balance_of d a = ledger_sum d a" unfolding balanced_iff by blast
  moreover from assms(3) have "balance_of d' a - balance_of d a = ledger_sum d' a - ledger_sum d a"
    by blast
  ultimately show "balance_of d' a = ledger_sum d' a" by simp
qed

lemma post_keeps_ledger:
  assumes "balanced d" "primary_keys d" "post_transaction fault userId body d = (Created i, d')"
  shows "balanced d' \<and> primary_keys d'"
proof -
  from post_effect [OF assms(3)] obtain account where
    t: "transactions d' = transactions d @ [(i, create_data userId body account)]"
    and i: "i = fresh_id (transactions d)"
    and k: "map fst (accounts d') = map fst (accounts d)"
    and b: "\<forall>a. balance_of d' a = balance_of d a
                 + (if a = c_accountId body then delta (c_type body) (c_amount body) else 0)"
    by blast
  have "ledger_sum d' a = ledger_sum d a
      + (if a = c_accountId body then delta (c_type body) (c_amount body) else 0)" for a
    by (simp add: ledger_sum_contribution t contribution_def create_data_def)
  with b have "\<forall>a. balance_of d' a - balance_of d a = ledger_sum d' a - ledger_sum d a"
    by simp
  with assms(1) k have "balanced d'" by (rule balanced_step)
  moreover from i have "i \<notin> fst ` set (transactions d)"
    using fresh_id_new [of "transactions d"] by (simp add: map_of_eq_None_iff)
  with assms(2) t have "primary_keys d'" by (simp add: primary_keys_def)
  ultimately show ?thesis ..
qed

lemma put_keeps_ledger:
  assumes "balanced d" "primary_keys d" "put_transaction fault userId txId body d = (Success, d')"
  shows "balanced d' \<and> primary_keys d'"
proof -
  from put_effect [OF assms(3)] obtain old where
    f: "transaction_findFirst txId userId d = Some old"
    and t: "transactions d' = AList.update txId (apply_update body old) (transactions d)"
    and k: "map fst (accounts d') = map fst (accounts d)"
    and b: "\<forall>a. balance_of d' a = balance_of d a
                 + (if a = accountId old then - delta (txType old) (amount old) else 0)
                 + (if a = accountId (apply_update body old)
                    then delta (txType (apply_update body old)) (amount (apply_update body old))
                    else 0)"
    by blast
  from f have m: "map_of (transactions d) txId = Some old" by (rule findFirst_Some)
  have "ledger_sum d' a = ledger_sum d a - contribution a old
      + contribution a (apply_update body old)" for a
    unfolding ledger_sum_contribution t by (rule sum_list_update [OF m])
  with b have "\<forall>a. balance_of d' a - balance_of d a = ledger_sum d' a - ledger_sum d a"
    by (simp add: contribution_def)
  with assms(1) k have "balanced d'" by (rule balanced_step)
  moreover from assms(2) t have "primary_keys d'"
    by (simp add: primary_keys_def distinct_update)
  ultimately show ?thesis ..
qed

lemma delete_keeps_ledger:
  assumes "balanced d" "primary_keys d" "delete_transaction fault userId txId d = (Success, d')"
  shows "balanced d' \<and> primary_keys d'"
proof -
  from delete_effect [OF assms(3)] obtain old where
    f: "transaction_findFirst txId userId d = Some old"
    and t: "transactions d' = AList.delete txId (transactions d)"
    and k: "map fst (accounts d') = map fst (accounts d)"
    and b: "\<forall>a. balance_of d' a = balance_of d a
                 + (if a = accountId old then - delta (txType old) (amount old) else 0)"
    by blast
  from f have m: "map_of (transactions d) txId = Some old" by (rule findFirst_Some)
  from assms(2) have dist: "distinct (map fst (transactions d))" by (simp add: primary_keys_def)
  have "ledger_sum d' a = ledger_sum d a - contribution a old" for a
    unfolding ledger_sum_contribution t by (rule sum_list_delete [OF dist m])
  with b have "\<forall>a. balance_of d' a - balance_of d a = ledger_sum d' a - ledger_sum d a"
    by (simp add: contribution_def)
  with assms(1) k have "balanced d'" by (rule balanced_step)
  moreover from dist t have "primary_keys d'"
    by (simp add: primary_keys_def distinct_delete)
  ultimately show ?thesis ..
qed

lemma handle_keeps_ledger:
  assumes "balanced d" "primary_keys d" "handle fault req d = (resp, d')" "resp \<noteq> ServerError"
  shows "balanced d' \<and> primary_keys d'"
proof (cases req)
  case (POST userId body)
  with assms(3) have p: "post_transaction fault userId body d = (resp, d')" by simp
  from post_outcomes [OF p] assms(4) show ?thesis
    using assms(1,2) post_keeps_ledger p by blast
next
  case (PUT userId txId body)
  with assms(3) have p: "put_transaction fault userId txId body d = (resp, d')" by simp
  from put_outcomes [OF p] assms(4) show ?thesis
    using assms(1,2) put_keeps_ledger p by blast
next
  case (DELETE userId txId)
  with assms(3) have p: "delete_transaction fault userId txId d = (resp, d')" by simp
  from delete_outcomes [OF p] assms(4) show ?thesis
    using assms(1,2) delete_keeps_ledger p by blast
qed

text \<open>
  C1. From a state where every account's cached balance is the sum of the signed
  amounts of its INCOME and EXPENSE transactions, any sequence of POST, PUT and DELETE
  requests none of which answers 500 leads to a state where this holds again, for
  every account.
\<close>

theorem ledger_invariant:
  assumes "balanced d" "primary_keys d" "run reqs d = (resps, d')" "ServerError \<notin> set resps"
  shows "balanced d' \<and> primary_keys d'
       \<and> (\<forall>a \<in> set (map fst (accounts d')). balance_of d' a = ledger_sum d' a)"
proof -
  have "balanced d' \<and> primary_keys d'"
    using assms
  proof (induction reqs arbitrary: d resps d')
    case Nil
    then show ?case by simp
  next
    case (Cons fr reqs)
    obtain resp d1 where h: "handle (fst fr) (snd fr) d = (resp, d1)"
      by (cases "handle (fst fr) (snd fr) d")
    obtain rs d2 where r: "run reqs d1 = (rs, d2)" by (cases "run reqs d1")
    from Cons.prems(3) h r have e: "resps = resp # rs" "d' = d2" by simp_all
    with Cons.prems(4) have ok: "resp \<noteq> ServerError" "ServerError \<notin> set rs" by auto
    from handle_keeps_ledger [OF Cons.prems(1,2) h ok(1)]
    have "balanced d1" "primary_keys d1" by simp_all
    from Cons.IH [OF this r ok(2)] e show ?case by simp
  qed
  then show ?thesis by (simp add: balanced_iff)
qed


theorem ledger_invariant_witness:
  "balanced db_A \<and> primary_keys db_A
   \<and> fst (run scenario_requests db_A) = [Created 1, Success, Success]
   \<and> balance_of (snd (run scenario_requests db_A)) ''B'' = - 30
   \<and> ledger_sum (snd (run scenario_requests db_A)) ''B'' = - 30
   \<and> balance_of (snd (run scenario_requests db_A)) ''A'' = 0"
proof -
  have b: "balanced db_A" "primary_keys db_A"
    by code_simp+
  have r: "fst (run scenario_requests db_A) = [Created 1, Success, Success]"
    by code_simp
  then have e: "run scenario_requests db_A
      = ([Created 1, Success, Success], snd (run scenario_requests db_A))"
    by (simp add: prod_eq_iff)
  have k: "''B'' \<in> set (map fst (accounts (snd (run scenario_requests db_A))))"
    "''A'' \<in> set (map fst (accounts (snd (run scenario_requests db_A))))"
    by code_simp+
  have s: "ledger_sum (snd (run scenario_requests db_A)) ''B'' = - 30"
    "ledger_sum (snd (run scenario_requests db_A)) ''A'' = 0"
    by code_simp+
  from ledger_invariant [OF b e]
  have "\<forall>a \<in> set (map fst (accounts (snd (run scenario_requests db_A)))).
          balance_of (snd (run scenario_requests db_A)) a
          = ledger_sum (snd (run scenario_requests db_A)) a"
    by simp
  with k have "balance_of (snd (run scenario_requests db_A)) ''B''
          = ledger_sum (snd (run scenario_requests db_A)) ''B''"
     "balance_of (snd (run scenario_requests db_A)) ''A''
          = ledger_sum (snd (run scenario_requests db_A)) ''A''"
    by blast+
  with s b r show ?thesis by simp
qed


subsection \<open>No unit is atomic\<close>

lemma create_schema_Inr: "CreateTransactionSchema body = Inr v \<Longrightarrow> v = body"
  by (auto simp: CreateTransactionSchema_def split: if_splits)

lemma post_shape:
  assumes "post_transaction fault userId body d = (r, d')"
  shows "d' = d \<or> (\<exists>account. post_writes fault userId body account d = (r, d'))"
  using assms unfolding post_transaction_def
  by (auto split: sum.splits option.splits bool.splits dest!: create_schema_Inr)

lemma post_writes_error:
  assumes "post_writes fault userId body account d = (ServerError, d')"
  shows "d' = d \<or> (\<exists>i. transaction_create (create_data userId body account) d = Inr (i, d'))"
  using assms unfolding post_writes_def Let_def
  by (auto split: sum.splits prod.splits if_splits dest!: attempt_Inr)

lemma delete_error:
  assumes "delete_transaction fault userId txId d = (ServerError, d')"
  shows "d' = d \<or> transaction_delete txId d = Inr d'"
  using assms unfolding delete_transaction_def Let_def
  by (auto split: sum.splits option.splits if_splits dest!: attempt_Inr)

lemma put_balances_error:
  assumes "put_balances fault old u d = (ServerError, d')"
  shows "d' = d \<or> account_update_increment (accountId old)
                     (- delta (txType old) (amount old)) d = Inr d'"
proof (cases "txType old")
  case INCOME
  with assms show ?thesis unfolding put_balances_def Let_def
    by (auto split: sum.splits if_splits dest!: attempt_Inr)
next
  case EXPENSE
  with assms show ?thesis unfolding put_balances_def Let_def
    by (auto split: sum.splits if_splits dest!: attempt_Inr)
next
  case TRANSFER
  with assms show ?thesis unfolding put_balances_def Let_def
    by (auto split: sum.splits if_splits dest!: attempt_Inr)
qed

lemma put_error:
  assumes "put_transaction fault userId txId body d = (ServerError, d')"
  shows "d' = d \<or> transaction_update txId body d = Inr d'
       \<or> (\<exists>old d1. transaction_findFirst txId userId d = Some old
             \<and> transaction_update txId body d = Inr d1
             \<and> account_update_increment (accountId old)
                  (- delta (txType old) (amount old)) d1 = Inr d')"
  using put_shape [OF assms] put_balances_error by blast

lemma process_subscription_error:
  assumes "process_subscription fault (subId, s) d = (ErrorProcessing subId e, d')"
  shows "d' = d
       \<or> (\<exists>account i. transaction_create (subscription_expense subId s account) d = Inr (i, d'))
       \<or> (\<exists>account i d1.
             transaction_create (subscription_expense subId s account) d = Inr (i, d1)
             \<and> account_update_decrement (sub_accountId s) (sub_amount s) d1 = Inr d')"
  using assms unfolding process_subscription_def
  by (auto split: sum.splits option.splits prod.splits dest!: attempt_Inr)

text \<open>
  The units are not atomic. When the balance update of a POST throws, the route
  answers 500 and the transaction row stays, with the balance of its account
  untouched. When the subscription update of the processor throws, the expense and
  the decrement stay and the subscription keeps its billing date.
\<close>

theorem writes_not_atomic_counterexample:
  "fst (post_transaction (Some 3) ''u1'' expense_50 db_A) = ServerError
   \<and> snd (post_transaction (Some 3) ''u1'' expense_50 db_A) \<noteq> db_A
   \<and> map_of (transactions (snd (post_transaction (Some 3) ''u1'' expense_50 db_A))) 1
       = Some (create_data ''u1'' expense_50 account_A)
   \<and> balance_of (snd (post_transaction (Some 3) ''u1'' expense_50 db_A)) ''A'' = 0
   \<and> fst (process_subscription (Some 3) (''S'', subscription_S) db_S)
       = ErrorProcessing ''S'' StorageFailure
   \<and> snd (process_subscription (Some 3) (''S'', subscription_S) db_S) \<noteq> db_S
   \<and> length (transactions (snd (process_subscription (Some 3) (''S'', subscription_S) db_S))) = 1
   \<and> balance_of (snd (process_subscription (Some 3) (''S'', subscription_S) db_S)) ''A'' = 80
   \<and> subscriptions (snd (process_subscription (Some 3) (''S'', subscription_S) db_S))
       = subscriptions db_S"
  by code_simp

lemma attempt_other: "fault \<noteq> Some n \<Longrightarrow> attempt fault n r = r"
  by (simp add: attempt_def)

lemma category_check_other:
  "k \<noteq> n \<Longrightarrow>
   category_check (Some k) n userId catId d = category_check None n userId catId d"
  by (simp add: category_check_def attempt_def)

lemma account_check_other:
  "k \<noteq> 1 \<Longrightarrow>
   account_check (Some k) userId old body d = account_check None userId old body d"
  by (simp add: account_check_def attempt_def)

lemma post_Created_steps:
  assumes "post_transaction None userId body d = (Created i, d2)"
  shows "\<exists>account d1. CreateTransactionSchema body = Inr body
           \<and> account_findFirst (c_accountId body) userId d = Some account
           \<and> category_check None 1 userId (c_categoryId body) d = Inr True
           \<and> transaction_create (create_data userId body account) d = Inr (i, d1)"
proof -
  from assms obtain v where v: "CreateTransactionSchema body = Inr v"
    by (auto simp: post_transaction_def split: sum.splits)
  then have vb: "v = body" by (rule create_schema_Inr)
  from assms v vb obtain account where a: "account_findFirst (c_accountId body) userId d = Some account"
    and c: "category_check None 1 userId (c_categoryId body) d = Inr True"
    and w: "post_writes None userId body account d = (Created i, d2)"
    by (auto simp: post_transaction_def split: sum.splits option.splits bool.splits)
  from post_writes_Created [OF w] obtain d1 where
    "transaction_create (create_data userId body account) d = Inr (i, d1)" by blast
  with v vb a c show ?thesis by blast
qed

lemma post_fault_2:
  assumes "post_transaction None userId body d = (Created i, d2)"
  shows "post_transaction (Some 2) userId body d = (ServerError, d)"
proof -
  from post_Created_steps [OF assms] obtain account where
    "CreateTransactionSchema body = Inr body"
    "account_findFirst (c_accountId body) userId d = Some account"
    "category_check None 1 userId (c_categoryId body) d = Inr True"
    by blast
  then show ?thesis
    by (simp add: post_transaction_def post_writes_def attempt_def category_check_other)
qed

lemma post_fault_3:
  assumes "post_transaction None userId body d = (Created i, d2)" "c_type body \<noteq> TRANSFER"
  shows "\<exists>account d1. transaction_create (create_data userId body account) d = Inr (i, d1)
           \<and> post_transaction (Some 3) userId body d = (ServerError, d1)
           \<and> transactions d1 = transactions d @ [(i, create_data userId body account)]
           \<and> accounts d1 = accounts d \<and> d1 \<noteq> d"
proof -
  from post_Created_steps [OF assms(1)] obtain account d1 where
    s: "CreateTransactionSchema body = Inr body"
    "account_findFirst (c_accountId body) userId d = Some account"
    "category_check None 1 userId (c_categoryId body) d = Inr True"
    and c: "transaction_create (create_data userId body account) d = Inr (i, d1)"
    by blast
  from s c assms(2) have p: "post_transaction (Some 3) userId body d = (ServerError, d1)"
    by (simp add: post_transaction_def post_writes_def attempt_def category_check_other Let_def)
  note t = create_tables [OF c]
  from t have "transactions d1 \<noteq> transactions d" by simp
  then have "d1 \<noteq> d" by auto
  with c p t show ?thesis by blast
qed

lemma delete_Success_steps:
  assumes "delete_transaction None userId txId d = (Success, d2)"
  shows "\<exists>t d1. transaction_findFirst txId userId d = Some t
           \<and> transaction_delete txId d = Inr d1"
  using assms
  by (auto simp: delete_transaction_def split: sum.splits option.splits)

lemma delete_fault_1:
  assumes "delete_transaction None userId txId d = (Success, d2)"
  shows "delete_transaction (Some 1) userId txId d = (ServerError, d)"
  using delete_Success_steps [OF assms]
  by (auto simp: delete_transaction_def attempt_def)

lemma delete_fault_2:
  assumes "delete_transaction None userId txId d = (Success, d2)"
    and "transaction_findFirst txId userId d = Some t" "txType t \<noteq> TRANSFER"
  shows "\<exists>d1. transaction_delete txId d = Inr d1
           \<and> delete_transaction (Some 2) userId txId d = (ServerError, d1)
           \<and> map_of (transactions d1) txId = None
           \<and> accounts d1 = accounts d \<and> d1 \<noteq> d"
proof -
  from delete_Success_steps [OF assms(1)] assms(2) obtain d1 where
    del: "transaction_delete txId d = Inr d1" by auto
  with assms(2,3) have p: "delete_transaction (Some 2) userId txId d = (ServerError, d1)"
    by (simp add: delete_transaction_def attempt_def Let_def)
  note t = delete_tables [OF del]
  then have n: "map_of (transactions d1) txId = None" by (simp add: delete_conv')
  with t have "transactions d1 \<noteq> transactions d" by auto
  then have "d1 \<noteq> d" by auto
  with del p t n show ?thesis by blast
qed

lemma put_Success_steps:
  assumes "put_transaction None userId txId body d = (Success, d2)"
  shows "\<exists>old d1. UpdateTransactionSchema body = Inr body
           \<and> transaction_findFirst txId userId d = Some old
           \<and> account_check None userId old body d = Inr True
           \<and> category_check None 2 userId (u_categoryId body) d = Inr True
           \<and> transaction_update txId body d = Inr d1
           \<and> put_balances None old body d1 = (Success, d2)"
proof -
  from assms obtain v where v: "UpdateTransactionSchema body = Inr v"
    by (auto simp: put_transaction_def split: sum.splits)
  then have vb: "v = body" by (rule update_schema_Inr)
  from assms v vb show ?thesis
    by (auto simp: put_transaction_def split: sum.splits option.splits bool.splits)
qed

lemma put_fault_3:
  assumes "put_transaction None userId txId body d = (Success, d2)"
  shows "put_transaction (Some 3) userId txId body d = (ServerError, d)"
proof -
  from put_Success_steps [OF assms] obtain old where
    "UpdateTransactionSchema body = Inr body"
    "transaction_findFirst txId userId d = Some old"
    "account_check None userId old body d = Inr True"
    "category_check None 2 userId (u_categoryId body) d = Inr True"
    by blast
  then show ?thesis
    by (simp add: put_transaction_def attempt_def category_check_other account_check_other)
qed

lemma put_reaches_balances:
  assumes "put_transaction None userId txId body d = (Success, d2)"
    and "transaction_findFirst txId userId d = Some old" "k = 4 \<or> k = 5"
  shows "\<exists>d1. transaction_update txId body d = Inr d1
           \<and> put_balances None old body d1 = (Success, d2)
           \<and> put_transaction (Some k) userId txId body d = put_balances (Some k) old body d1"
proof -
  from put_Success_steps [OF assms(1)] assms(2) obtain d1 where
    s: "UpdateTransactionSchema body = Inr body"
    "account_check None userId old body d = Inr True"
    "category_check None 2 userId (u_categoryId body) d = Inr True"
    "transaction_update txId body d = Inr d1"
    and b: "put_balances None old body d1 = (Success, d2)"
    by auto
  from assms(3) have k: "k \<noteq> 0" "k \<noteq> 1" "k \<noteq> 2" "k \<noteq> 3" by auto
  with s assms(2) have "put_transaction (Some k) userId txId body d = put_balances (Some k) old body d1"
    by (simp add: put_transaction_def attempt_def category_check_other account_check_other)
  with s b show ?thesis by blast
qed

lemma put_fault_4:
  assumes "put_transaction None userId txId body d = (Success, d2)"
    and "transaction_findFirst txId userId d = Some old"
    and "u_amount body \<noteq> None \<or> u_type body \<noteq> None \<or> u_accountId body \<noteq> None"
    and "txType old \<noteq> TRANSFER"
  shows "\<exists>d1. transaction_update txId body d = Inr d1
           \<and> put_transaction (Some 4) userId txId body d = (ServerError, d1)
           \<and> map_of (transactions d1) txId = Some (apply_update body old)
           \<and> accounts d1 = accounts d"
proof -
  from put_reaches_balances [OF assms(1,2), of 4] obtain d1 where
    u: "transaction_update txId body d = Inr d1"
    and p: "put_transaction (Some 4) userId txId body d = put_balances (Some 4) old body d1"
    by auto
  from assms(3,4) have "put_balances (Some 4) old body d1 = (ServerError, d1)"
    by (simp add: put_balances_def attempt_def Let_def)
  moreover from update_tables [OF u] findFirst_Some [OF assms(2)]
  have "map_of (transactions d1) txId = Some (apply_update body old)" "accounts d1 = accounts d"
    by (auto simp: update_conv')
  ultimately show ?thesis using u p by auto
qed

lemma put_fault_5:
  assumes "put_transaction None userId txId body d = (Success, d2)"
    and "transaction_findFirst txId userId d = Some old"
    and "u_amount body \<noteq> None \<or> u_type body \<noteq> None \<or> u_accountId body \<noteq> None"
    and "txType (apply_update body old) \<noteq> TRANSFER"
  shows "\<exists>d1 dm. transaction_update txId body d = Inr d1
           \<and> (if txType old = TRANSFER then dm = d1
               else account_update_increment (accountId old)
                      (- delta (txType old) (amount old)) d1 = Inr dm)
           \<and> put_transaction (Some 5) userId txId body d = (ServerError, dm)
           \<and> map_of (transactions dm) txId = Some (apply_update body old)
           \<and> (\<forall>a. balance_of dm a = balance_of d a
                 + (if a = accountId old then - delta (txType old) (amount old) else 0))"
proof -
  from put_reaches_balances [OF assms(1,2), of 5] obtain d1 where
    u: "transaction_update txId body d = Inr d1"
    and b: "put_balances None old body d1 = (Success, d2)"
    and p: "put_transaction (Some 5) userId txId body d = put_balances (Some 5) old body d1"
    by auto
  from update_tables [OF u] findFirst_Some [OF assms(2)]
  have t1: "map_of (transactions d1) txId = Some (apply_update body old)"
    and a1: "accounts d1 = accounts d"
    by (auto simp: update_conv')
  from a1 have b1: "balance_of d1 = balance_of d" by (rule balance_of_accounts)
  from assms(4) have new: "(case u_type body of None \<Rightarrow> txType old | Some ty \<Rightarrow> ty) \<noteq> TRANSFER"
    by (simp add: apply_update_fields)
  show ?thesis
  proof (cases "txType old = TRANSFER")
    case True
    with assms(3) new have "put_balances (Some 5) old body d1 = (ServerError, d1)"
      by (simp add: put_balances_def attempt_def Let_def)
    with True u p t1 b1 show ?thesis by (intro exI [of _ d1]) simp
  next
    case False
    define x where "x = (if txType old = EXPENSE then amount old else - amount old)"
    from False have x: "x = - delta (txType old) (amount old)"
      by (cases "txType old") (simp_all add: x_def)
    from b assms(3) False obtain dm where
      r: "account_update_increment (accountId old) x d1 = Inr dm"
      unfolding put_balances_def Let_def x_def [symmetric]
      by (auto split: sum.splits if_splits)
    with assms(3) new False have "put_balances (Some 5) old body d1 = (ServerError, dm)"
      unfolding put_balances_def Let_def x_def [symmetric]
      by (simp add: attempt_def)
    moreover from increment_tables [OF r] t1
    have "map_of (transactions dm) txId = Some (apply_update body old)" by simp
    moreover from increment_balance_of [OF r] b1 x
    have "\<forall>a. balance_of dm a = balance_of d a
                 + (if a = accountId old then - delta (txType old) (amount old) else 0)"
      by simp
    ultimately show ?thesis using False u p r x
      by (intro exI [of _ d1] exI [of _ dm]) simp
  qed
qed

lemma unit_Processed_steps:
  assumes "process_subscription None (subId, s) d = (Processed subId, d3)"
  shows "\<exists>account i d1 d2. account_findUnique (sub_accountId s) d = Some account
           \<and> transaction_create (subscription_expense subId s account) d = Inr (i, d1)
           \<and> account_update_decrement (sub_accountId s) (sub_amount s) d1 = Inr d2
           \<and> subscription_update subId (next_billing_date s) d2 = Inr d3"
  using assms unfolding process_subscription_def
  by (auto split: sum.splits option.splits prod.splits)

lemma decrement_effect:
  assumes "account_update_decrement a x d = Inr d'"
  shows "transactions d' = transactions d" "subscriptions d' = subscriptions d"
    "balance_of d' b = balance_of d b - (if b = a then x else 0)"
  using assms
  by (auto simp: account_update_decrement_def balance_of_def update_conv' split: option.splits)

lemma unit_faults:
  assumes "process_subscription None (subId, s) d = (Processed subId, d3)"
  shows "process_subscription (Some 1) (subId, s) d = (ErrorProcessing subId StorageFailure, d)
       \<and> (\<exists>account i d1 d2.
             transaction_create (subscription_expense subId s account) d = Inr (i, d1)
           \<and> account_update_decrement (sub_accountId s) (sub_amount s) d1 = Inr d2
           \<and> process_subscription (Some 2) (subId, s) d
               = (ErrorProcessing subId StorageFailure, d1)
           \<and> process_subscription (Some 3) (subId, s) d
               = (ErrorProcessing subId StorageFailure, d2)
           \<and> transactions d1 = transactions d @ [(i, subscription_expense subId s account)]
           \<and> accounts d1 = accounts d \<and> d1 \<noteq> d
           \<and> transactions d2 = transactions d1 \<and> subscriptions d2 = subscriptions d
           \<and> balance_of d2 (sub_accountId s) = balance_of d (sub_accountId s) - sub_amount s)"
proof -
  from unit_Processed_steps [OF assms] obtain account i d1 d2 where
    a: "account_findUnique (sub_accountId s) d = Some account"
    and c: "transaction_create (subscription_expense subId s account) d = Inr (i, d1)"
    and u: "account_update_decrement (sub_accountId s) (sub_amount s) d1 = Inr d2"
    by blast
  from a have 1: "process_subscription (Some 1) (subId, s) d
      = (ErrorProcessing subId StorageFailure, d)"
    by (simp add: process_subscription_def attempt_def)
  from a c have 2: "process_subscription (Some 2) (subId, s) d
      = (ErrorProcessing subId StorageFailure, d1)"
    by (simp add: process_subscription_def attempt_def)
  from a c u have 3: "process_subscription (Some 3) (subId, s) d
      = (ErrorProcessing subId StorageFailure, d2)"
    by (simp add: process_subscription_def attempt_def)
  note t = create_tables [OF c]
  from t have "transactions d1 \<noteq> transactions d" by simp
  then have ne: "d1 \<noteq> d" by auto
  from t have "balance_of d1 = balance_of d" by (intro balance_of_accounts) simp
  with decrement_effect(1,2) [OF u] decrement_effect(3) [OF u, of "sub_accountId s"] t
  have e: "transactions d2 = transactions d1" "subscriptions d2 = subscriptions d"
    "balance_of d2 (sub_accountId s) = balance_of d (sub_accountId s) - sub_amount s"
    by simp_all
  from 1 2 3 c u t ne e show ?thesis by blast
qed

text \<open>
  C6, as the code has it. The storage calls of a unit run one after the other with
  no storage transaction around them, and nothing is rolled back. Take a unit that
  goes through when no call fails. When its first write fails instead, the unit
  reports an error and the state is the one it started from. When a later call
  fails, the unit reports an error and the state holds exactly the writes that
  went before: the created row with the balance untouched, the updated row with
  the old balance unreverted or reverted only, the deleted row with its amount
  still in the balance, the created expense without the decrement, the expense
  and the decrement without the new billing date. In general a unit that reports
  an error leaves the state it started from or one of these states.
\<close>

theorem writes_stay_after_failure:
  "(post_transaction fault userId body d = (ServerError, d') \<longrightarrow>
      d' = d
      \<or> (\<exists>account i. transaction_create (create_data userId body account) d = Inr (i, d')))
   \<and> (put_transaction fault userId txId ubody d = (ServerError, d') \<longrightarrow>
      d' = d
      \<or> transaction_update txId ubody d = Inr d'
      \<or> (\<exists>old d1. transaction_findFirst txId userId d = Some old
            \<and> transaction_update txId ubody d = Inr d1
            \<and> account_update_increment (accountId old)
                 (- delta (txType old) (amount old)) d1 = Inr d'))
   \<and> (delete_transaction fault userId txId d = (ServerError, d') \<longrightarrow>
      d' = d \<or> transaction_delete txId d = Inr d')
   \<and> (process_subscription fault (subId, s) d = (ErrorProcessing subId e, d') \<longrightarrow>
      d' = d
      \<or> (\<exists>account i. transaction_create (subscription_expense subId s account) d = Inr (i, d'))
      \<or> (\<exists>account i d1.
            transaction_create (subscription_expense subId s account) d = Inr (i, d1)
            \<and> account_update_decrement (sub_accountId s) (sub_amount s) d1 = Inr d'))
   \<and> (post_transaction None userId body d = (Created i, d2) \<longrightarrow>
        post_transaction (Some 2) userId body d = (ServerError, d)
      \<and> (c_type body \<noteq> TRANSFER \<longrightarrow>
           (\<exists>account d1.
              transaction_create (create_data userId body account) d = Inr (i, d1)
            \<and> post_transaction (Some 3) userId body d = (ServerError, d1)
            \<and> transactions d1 = transactions d @ [(i, create_data userId body account)]
            \<and> accounts d1 = accounts d \<and> d1 \<noteq> d)))
   \<and> (put_transaction None userId txId ubody d = (Success, d2)
        \<and> transaction_findFirst txId userId d = Some old
        \<and> (u_amount ubody \<noteq> None \<or> u_type ubody \<noteq> None \<or> u_accountId ubody \<noteq> None) \<longrightarrow>
        put_transaction (Some 3) userId txId ubody d = (ServerError, d)
      \<and> (txType old \<noteq> TRANSFER \<longrightarrow>
           (\<exists>d1. transaction_update txId ubody d = Inr d1
            \<and> put_transaction (Some 4) userId txId ubody d = (ServerError, d1)
            \<and> map_of (transactions d1) txId = Some (apply_update ubody old)
            \<and> accounts d1 = accounts d))
      \<and> (txType (apply_update ubody old) \<noteq> TRANSFER \<longrightarrow>
           (\<exists>d1 dm. transaction_update txId ubody d = Inr d1
            \<and> (if txType old = TRANSFER then dm = d1
                else account_update_increment (accountId old)
                       (- delta (txType old) (amount old)) d1 = Inr dm)
            \<and> put_transaction (Some 5) userId txId ubody d = (ServerError, dm)
            \<and> map_of (transactions dm) txId = Some (apply_update ubody old)
            \<and> (\<forall>a. balance_of dm a = balance_of d a
                  + (if a = accountId old then - delta (txType old) (amount old) else 0)))))
   \<and> (delete_transaction None userId txId d = (Success, d2)
        \<and> transaction_findFirst txId userId d = Some t \<longrightarrow>
        delete_transaction (Some 1) userId txId d = (ServerError, d)
      \<and> (txType t \<noteq> TRANSFER \<longrightarrow>
           (\<exists>d1. transaction_delete txId d = Inr d1
            \<and> delete_transaction (Some 2) userId txId d = (ServerError, d1)
            \<and> map_of (transactions d1) txId = None
            \<and> accounts d1 = accounts d \<and> d1 \<noteq> d)))
   \<and> (process_subscription None (subId, s) d = (Processed subId, d3) \<longrightarrow>
        process_subscription (Some 1) (subId, s) d = (ErrorProcessing subId StorageFailure, d)
      \<and> (\<exists>account i d1 d2.
             transaction_create (subscription_expense subId s account) d = Inr (i, d1)
           \<and> account_update_decrement (sub_accountId s) (sub_amount s) d1 = Inr d2
           \<and> process_subscription (Some 2) (subId, s) d
               = (ErrorProcessing subId StorageFailure, d1)
           \<and> process_subscription (Some 3) (subId, s) d
               = (ErrorProcessing subId StorageFailure, d2)
           \<and> transactions d1 = transactions d @ [(i, subscription_expense subId s account)]
           \<and> accounts d1 = accounts d \<and> d1 \<noteq> d
           \<and> transactions d2 = transactions d1 \<and> subscriptions d2 = subscriptions d
           \<and> balance_of d2 (sub_accountId s) = balance_of d (sub_accountId s) - sub_amount s))"
proof -
  have 1: "post_transaction fault userId body d = (ServerError, d') \<longrightarrow>
      d' = d
      \<or> (\<exists>account i. transaction_create (create_data userId body account) d = Inr (i, d'))"
    using post_shape [of fault userId body d ServerError d'] post_writes_error by blast
  note 2 = put_error [of fault userId txId ubody d d']
  note 3 = delete_error [of fault userId txId d d']
  note 4 = process_subscription_error [of fault subId s d e d']
  note 5 = post_fault_2 [of userId body d i d2] post_fault_3 [of userId body d i d2]
  note 6 = put_fault_3 [of userId txId ubody d d2] put_fault_4 [of userId txId ubody d d2 old]
    put_fault_5 [of userId txId ubody d d2 old]
  note 7 = delete_fault_1 [of userId txId d d2] delete_fault_2 [of userId txId d d2 t]
  note 8 = unit_faults [of subId s d d3]
  show ?thesis
    apply (intro conjI impI)
    using 1 apply blast
    using 2 apply blast
    using 3 apply blast
    using 4 apply blast
    using 5(1) apply blast
    using 5(2) apply blast
    using 6(1) apply blast
    using 6(2) apply blast
    using 6(3) apply blast
    using 7(1) apply blast
    using 7(2) apply blast
    using 8 apply blast
    using 8 apply blast
    done
qed

theorem writes_stay_after_failure_witness:
  "post_transaction None ''u1'' expense_50 db_A = (Created 1, db_A1)
   \<and> post_transaction (Some 2) ''u1'' expense_50 db_A = (ServerError, db_A)
   \<and> (\<exists>account d1. transaction_create (create_data ''u1'' expense_50 account) db_A = Inr (1, d1)
         \<and> post_transaction (Some 3) ''u1'' expense_50 db_A = (ServerError, d1)
         \<and> accounts d1 = accounts db_A \<and> d1 \<noteq> db_A)
   \<and> fst (put_transaction None ''u1'' 1 move_to_B db_A1) = Success
   \<and> put_transaction (Some 3) ''u1'' 1 move_to_B db_A1 = (ServerError, db_A1)
   \<and> (\<exists>d1. transaction_update 1 move_to_B db_A1 = Inr d1
         \<and> put_transaction (Some 4) ''u1'' 1 move_to_B db_A1 = (ServerError, d1)
         \<and> accounts d1 = accounts db_A1)
   \<and> (\<exists>dm. put_transaction (Some 5) ''u1'' 1 move_to_B db_A1 = (ServerError, dm)
         \<and> balance_of dm ''A'' = 0 \<and> balance_of dm ''B'' = 0)
   \<and> fst (delete_transaction None ''u1'' 1 db_A1) = Success
   \<and> delete_transaction (Some 1) ''u1'' 1 db_A1 = (ServerError, db_A1)
   \<and> (\<exists>d1. delete_transaction (Some 2) ''u1'' 1 db_A1 = (ServerError, d1)
         \<and> map_of (transactions d1) 1 = None \<and> accounts d1 = accounts db_A1)
   \<and> fst (process_subscription None (''S'', subscription_S) db_S) = Processed ''S''
   \<and> process_subscription (Some 1) (''S'', subscription_S) db_S
       = (ErrorProcessing ''S'' StorageFailure, db_S)
   \<and> (\<exists>d1 d2. process_subscription (Some 2) (''S'', subscription_S) db_S
                 = (ErrorProcessing ''S'' StorageFailure, d1)
         \<and> process_subscription (Some 3) (''S'', subscription_S) db_S
                 = (ErrorProcessing ''S'' StorageFailure, d2)
         \<and> accounts d1 = accounts db_S \<and> d1 \<noteq> db_S
         \<and> subscriptions d2 = subscriptions db_S \<and> balance_of d2 ''A'' = 80)
   \<and> (\<exists>account i. transaction_create (create_data ''u1'' expense_50 account) db_A
          = Inr (i, snd (post_transaction (Some 3) ''u1'' expense_50 db_A)))
   \<and> (\<exists>old d1. transaction_findFirst 1 ''u1'' db_A1 = Some old
          \<and> transaction_update 1 move_to_B db_A1 = Inr d1
          \<and> account_update_increment (accountId old) (- delta (txType old) (amount old)) d1
              = Inr (snd (put_transaction (Some 5) ''u1'' 1 move_to_B db_A1)))
   \<and> transaction_delete 1 db_A1 = Inr (snd (delete_transaction (Some 2) ''u1'' 1 db_A1))
   \<and> (\<exists>account i d1.
          transaction_create (subscription_expense ''S'' subscription_S account) db_S = Inr (i, d1)
          \<and> account_update_decrement (sub_accountId subscription_S) (sub_amount subscription_S) d1
              = Inr (snd (process_subscription (Some 3) (''S'', subscription_S) db_S)))"
proof -
  define old where "old = create_data ''u1'' expense_50 account_A"
  define P where "P = snd (post_transaction (Some 3) ''u1'' expense_50 db_A)"
  define U where "U = snd (put_transaction (Some 5) ''u1'' 1 move_to_B db_A1)"
  define D where "D = snd (delete_transaction (Some 2) ''u1'' 1 db_A1)"
  define S where "S = snd (process_subscription (Some 3) (''S'', subscription_S) db_S)"
  define U0 where "U0 = snd (put_transaction None ''u1'' 1 move_to_B db_A1)"
  define D0 where "D0 = snd (delete_transaction None ''u1'' 1 db_A1)"
  define S0 where "S0 = snd (process_subscription None (''S'', subscription_S) db_S)"
  have ok: "post_transaction None ''u1'' expense_50 db_A = (Created 1, db_A1)"
    unfolding db_A1_def prod_eq_iff by (simp, code_simp)
  have r0: "fst (put_transaction None ''u1'' 1 move_to_B db_A1) = Success"
    "fst (delete_transaction None ''u1'' 1 db_A1) = Success"
    "fst (process_subscription None (''S'', subscription_S) db_S) = Processed ''S''"
    by code_simp+
  then have e0: "put_transaction None ''u1'' 1 move_to_B db_A1 = (Success, U0)"
    "delete_transaction None ''u1'' 1 db_A1 = (Success, D0)"
    "process_subscription None (''S'', subscription_S) db_S = (Processed ''S'', S0)"
    by (simp_all add: prod_eq_iff U0_def D0_def S0_def)
  have f: "transaction_findFirst 1 ''u1'' db_A1 = Some old"
    unfolding old_def by code_simp
  have k: "c_type expense_50 \<noteq> TRANSFER" "txType old \<noteq> TRANSFER"
    "txType (apply_update move_to_B old) \<noteq> TRANSFER"
    "u_amount move_to_B \<noteq> None \<or> u_type move_to_B \<noteq> None \<or> u_accountId move_to_B \<noteq> None"
    "accountId old = ''A''" "delta (txType old) (amount old) = - 50"
    "balance_of db_A1 ''A'' = - 50" "balance_of db_A1 ''B'' = 0"
    "sub_accountId subscription_S = ''A''" "sub_amount subscription_S = 20"
    "balance_of db_S ''A'' = 100"
    unfolding old_def by code_simp+
  note post = writes_stay_after_failure [where userId = "''u1''" and body = expense_50
      and d = db_A and i = 1 and ?d2.0 = db_A1, THEN conjunct2, THEN conjunct2, THEN conjunct2, THEN conjunct2, THEN conjunct1]
  from ok k(1) have 5: "post_transaction (Some 2) ''u1'' expense_50 db_A = (ServerError, db_A)"
    "\<exists>account d1. transaction_create (create_data ''u1'' expense_50 account) db_A = Inr (1, d1)
         \<and> post_transaction (Some 3) ''u1'' expense_50 db_A = (ServerError, d1)
         \<and> accounts d1 = accounts db_A \<and> d1 \<noteq> db_A"
    using post by blast+
  note put = writes_stay_after_failure [where userId = "''u1''" and txId = 1
      and ubody = move_to_B and d = db_A1 and ?d2.0 = U0 and old = old,
      THEN conjunct2, THEN conjunct2, THEN conjunct2, THEN conjunct2, THEN conjunct2, THEN conjunct1]
  from e0(1) f k(2,3,4)
  have 6: "put_transaction (Some 3) ''u1'' 1 move_to_B db_A1 = (ServerError, db_A1)"
    "\<exists>d1. transaction_update 1 move_to_B db_A1 = Inr d1
         \<and> put_transaction (Some 4) ''u1'' 1 move_to_B db_A1 = (ServerError, d1)
         \<and> accounts d1 = accounts db_A1"
    "\<exists>dm. put_transaction (Some 5) ''u1'' 1 move_to_B db_A1 = (ServerError, dm)
         \<and> (\<forall>a. balance_of dm a = balance_of db_A1 a
                  + (if a = accountId old then - delta (txType old) (amount old) else 0))"
    using put by blast+
  from 6(3) k have six: "\<exists>dm. put_transaction (Some 5) ''u1'' 1 move_to_B db_A1 = (ServerError, dm)
         \<and> balance_of dm ''A'' = 0 \<and> balance_of dm ''B'' = 0"
    by auto
  note dlt = writes_stay_after_failure [where userId = "''u1''" and txId = 1
      and d = db_A1 and ?d2.0 = D0 and t = old, THEN conjunct2, THEN conjunct2, THEN conjunct2, THEN conjunct2, THEN conjunct2, THEN conjunct2, THEN conjunct1]
  from e0(2) f k(2)
  have 7: "delete_transaction (Some 1) ''u1'' 1 db_A1 = (ServerError, db_A1)"
    "\<exists>d1. delete_transaction (Some 2) ''u1'' 1 db_A1 = (ServerError, d1)
         \<and> map_of (transactions d1) 1 = None \<and> accounts d1 = accounts db_A1"
    using dlt by blast+
  note unit = writes_stay_after_failure [where subId = "''S''" and s = subscription_S
      and d = db_S and ?d3.0 = S0, THEN conjunct2, THEN conjunct2, THEN conjunct2, THEN conjunct2, THEN conjunct2, THEN conjunct2, THEN conjunct2]
  from e0(3)
  have 8: "process_subscription (Some 1) (''S'', subscription_S) db_S
       = (ErrorProcessing ''S'' StorageFailure, db_S)"
    "\<exists>d1 d2. process_subscription (Some 2) (''S'', subscription_S) db_S
                 = (ErrorProcessing ''S'' StorageFailure, d1)
         \<and> process_subscription (Some 3) (''S'', subscription_S) db_S
                 = (ErrorProcessing ''S'' StorageFailure, d2)
         \<and> accounts d1 = accounts db_S \<and> d1 \<noteq> db_S
         \<and> subscriptions d2 = subscriptions db_S
         \<and> balance_of d2 (sub_accountId subscription_S)
             = balance_of db_S (sub_accountId subscription_S) - sub_amount subscription_S"
    using unit by blast+
  from 8(2) k have eight: "\<exists>d1 d2. process_subscription (Some 2) (''S'', subscription_S) db_S
                 = (ErrorProcessing ''S'' StorageFailure, d1)
         \<and> process_subscription (Some 3) (''S'', subscription_S) db_S
                 = (ErrorProcessing ''S'' StorageFailure, d2)
         \<and> accounts d1 = accounts db_S \<and> d1 \<noteq> db_S
         \<and> subscriptions d2 = subscriptions db_S \<and> balance_of d2 ''A'' = 80"
    by auto
  have r: "fst (post_transaction (Some 3) ''u1'' expense_50 db_A) = ServerError"
    "fst (put_transaction (Some 5) ''u1'' 1 move_to_B db_A1) = ServerError"
    "fst (delete_transaction (Some 2) ''u1'' 1 db_A1) = ServerError"
    "fst (process_subscription (Some 3) (''S'', subscription_S) db_S)
       = ErrorProcessing ''S'' StorageFailure"
    by code_simp+
  then have e: "post_transaction (Some 3) ''u1'' expense_50 db_A = (ServerError, P)"
    "put_transaction (Some 5) ''u1'' 1 move_to_B db_A1 = (ServerError, U)"
    "delete_transaction (Some 2) ''u1'' 1 db_A1 = (ServerError, D)"
    "process_subscription (Some 3) (''S'', subscription_S) db_S
       = (ErrorProcessing ''S'' StorageFailure, S)"
    by (simp_all add: prod_eq_iff P_def U_def D_def S_def)
  have n: "P \<noteq> db_A" "U \<noteq> db_A1" "transaction_update 1 move_to_B db_A1 \<noteq> Inr U"
    "D \<noteq> db_A1" "S \<noteq> db_S" "accounts S \<noteq> accounts db_S"
    unfolding P_def U_def D_def S_def by code_simp+
  from n(6) have nc: "transaction_create t db_S \<noteq> Inr (i, S)" for t i
    using create_tables [of t db_S i S] by blast
  from e(1) n(1)
  have 1: "\<exists>account i. transaction_create (create_data ''u1'' expense_50 account) db_A = Inr (i, P)"
    using writes_stay_after_failure [where fault = "Some 3" and userId = "''u1''"
        and body = expense_50 and d = db_A and d' = P, THEN conjunct1]
    by blast
  from e(2) n(2,3)
  have 2: "\<exists>old d1. transaction_findFirst 1 ''u1'' db_A1 = Some old
          \<and> transaction_update 1 move_to_B db_A1 = Inr d1
          \<and> account_update_increment (accountId old) (- delta (txType old) (amount old)) d1
              = Inr U"
    using writes_stay_after_failure [where fault = "Some 5" and userId = "''u1''"
        and txId = 1 and ubody = move_to_B and d = db_A1 and d' = U, THEN conjunct2, THEN conjunct1]
    by blast
  from e(3) n(4)
  have 3: "transaction_delete 1 db_A1 = Inr D"
    using writes_stay_after_failure [where fault = "Some 2" and userId = "''u1''"
        and txId = 1 and d = db_A1 and d' = D, THEN conjunct2, THEN conjunct2, THEN conjunct1]
    by blast
  from e(4) n(5) nc
  have 4: "\<exists>account i d1.
          transaction_create (subscription_expense ''S'' subscription_S account) db_S = Inr (i, d1)
          \<and> account_update_decrement (sub_accountId subscription_S) (sub_amount subscription_S) d1
              = Inr S"
    using writes_stay_after_failure [where fault = "Some 3" and subId = "''S''"
        and s = subscription_S and d = db_S and d' = S and e = StorageFailure,
        THEN conjunct2, THEN conjunct2, THEN conjunct2, THEN conjunct1]
    by blast
  from ok 5 r0 6(1,2) six 7 8(1) eight 1 2 3 4 show ?thesis
    unfolding P_def U_def D_def S_def by (intro conjI)
qed

subsection \<open>Dates\<close>

lemma daysInMonth_bounds: "28 \<le> daysInMonth y m" "daysInMonth y m \<le> 31"
  by (simp_all add: daysInMonth_def)

lemma makeDay_fits: "d \<le> daysInMonth y m \<Longrightarrow> makeDay y m d = (y, m, d)"
  by (subst makeDay.simps) simp

lemma makeDay_overflow:
  assumes "daysInMonth y m < d" "d \<le> 31"
  shows "makeDay y m d =
           (if m = 11 then (y + 1, 0, d - daysInMonth y m)
            else (y, Suc m, d - daysInMonth y m))"
proof -
  from assms daysInMonth_bounds(1) [of y m] have "d - daysInMonth y m \<le> 3" by simp
  then have "d - daysInMonth y m \<le> daysInMonth y' m'" for y' m'
    using daysInMonth_bounds(1) [of y' m'] by simp
  then have "makeDay y' m' (d - daysInMonth y m) = (y', m', d - daysInMonth y m)" for y' m'
    by (rule makeDay_fits)
  then have "makeDay (y + 1) 0 (d - daysInMonth y m) = (y + 1, 0, d - daysInMonth y m)"
    "makeDay y (Suc m) (d - daysInMonth y m) = (y, Suc m, d - daysInMonth y m)"
    by blast+
  with assms(1) show ?thesis by (subst makeDay.simps) auto
qed

lemma monthly_fits:
  assumes "billingCycle s = MONTHLY" "monthIndex (nextBillingDate s) < 11"
    and "dayOfMonth (nextBillingDate s)
           \<le> daysInMonth (fullYear (nextBillingDate s)) (monthIndex (nextBillingDate s) + 1)"
  shows "next_billing_date s
           = (nextBillingDate s)\<lparr>monthIndex := monthIndex (nextBillingDate s) + 1\<rparr>"
  using assms by (simp add: next_billing_date_def Let_def setMonth_def makeDay_fits)

lemma monthly_december:
  assumes "billingCycle s = MONTHLY" "monthIndex (nextBillingDate s) = 11"
    and "dayOfMonth (nextBillingDate s) \<le> 31"
  shows "next_billing_date s
           = (nextBillingDate s)\<lparr>fullYear := fullYear (nextBillingDate s) + 1, monthIndex := 0\<rparr>"
  using assms by (simp add: next_billing_date_def Let_def setMonth_def makeDay_fits daysInMonth_def)

lemma yearly_fits:
  assumes "billingCycle s = YEARLY"
    and "dayOfMonth (nextBillingDate s)
           \<le> daysInMonth (fullYear (nextBillingDate s) + 1) (monthIndex (nextBillingDate s))"
  shows "next_billing_date s
           = (nextBillingDate s)\<lparr>fullYear := fullYear (nextBillingDate s) + 1\<rparr>"
  using assms by (simp add: next_billing_date_def Let_def setFullYear_def makeDay_fits)

text \<open>
  C10. A MONTHLY subscription whose day of the month does not exist in the following
  month is advanced into the month after that one: the month index grows by 2 and the
  day becomes the overshoot (at most 3), so the billing day is not kept. From January
  31 the next billing date is March 2 in a leap year and March 3 otherwise.
\<close>

theorem monthly_advance_overflows:
  assumes "billingCycle s = MONTHLY"
    and "monthIndex (nextBillingDate s) < 11"
    and "dayOfMonth (nextBillingDate s) \<le> 31"
    and "daysInMonth (fullYear (nextBillingDate s)) (monthIndex (nextBillingDate s) + 1)
           < dayOfMonth (nextBillingDate s)"
  shows "next_billing_date s
           = (nextBillingDate s)
               \<lparr>monthIndex := monthIndex (nextBillingDate s) + 2,
                dayOfMonth := dayOfMonth (nextBillingDate s)
                  - daysInMonth (fullYear (nextBillingDate s))
                      (monthIndex (nextBillingDate s) + 1)\<rparr>
       \<and> dayOfMonth (next_billing_date s) \<noteq> dayOfMonth (nextBillingDate s)
       \<and> dayOfMonth (next_billing_date s) \<le> 3
       \<and> (monthIndex (nextBillingDate s) = 0 \<and> dayOfMonth (nextBillingDate s) = 31 \<longrightarrow>
            monthIndex (next_billing_date s) = 2
            \<and> dayOfMonth (next_billing_date s)
                = (if isLeapYear (fullYear (nextBillingDate s)) then 2 else 3))"
proof -
  define nbd where "nbd = nextBillingDate s"
  define m1 where "m1 = Suc (monthIndex nbd)"
  from assms(2) have m1: "m1 < 12" "m1 \<noteq> 11 \<or> True" "m1 mod 12 = m1" "m1 div 12 = 0"
    by (simp_all add: m1_def nbd_def)
  from assms(4) have over: "daysInMonth (fullYear nbd) m1 < dayOfMonth nbd"
    by (simp add: nbd_def m1_def)
  have "m1 \<noteq> 11"
  proof
    assume "m1 = 11"
    with over assms(3) show False by (simp add: daysInMonth_def nbd_def)
  qed
  with makeDay_overflow [OF over] assms(3)
  have "makeDay (fullYear nbd) m1 (dayOfMonth nbd)
          = (fullYear nbd, Suc m1, dayOfMonth nbd - daysInMonth (fullYear nbd) m1)"
    by (simp add: nbd_def)
  with assms(1) m1 have e: "next_billing_date s
      = nbd\<lparr>monthIndex := Suc m1, dayOfMonth := dayOfMonth nbd - daysInMonth (fullYear nbd) m1\<rparr>"
    by (simp add: next_billing_date_def Let_def setMonth_def nbd_def [symmetric]
          m1_def [symmetric])
  have d: "dayOfMonth nbd - daysInMonth (fullYear nbd) m1 \<le> 3"
    "dayOfMonth nbd - daysInMonth (fullYear nbd) m1 \<noteq> dayOfMonth nbd"
    using over assms(3) daysInMonth_bounds(1) [of "fullYear nbd" m1]
    by (simp_all add: nbd_def)
  have j: "monthIndex nbd = 0 \<and> dayOfMonth nbd = 31 \<longrightarrow>
      dayOfMonth nbd - daysInMonth (fullYear nbd) m1 = (if isLeapYear (fullYear nbd) then 2 else 3)"
    by (simp add: m1_def daysInMonth_def)
  from e d j show ?thesis
    by (simp add: nbd_def [symmetric] m1_def)
qed

theorem monthly_advance_overflows_witness:
  "next_billing_date (subscription_S\<lparr>nextBillingDate := day 2023 0 31\<rparr>) = day 2023 2 3
   \<and> next_billing_date (subscription_S\<lparr>nextBillingDate := day 2024 0 31\<rparr>) = day 2024 2 2"
proof -
  have a: "billingCycle (subscription_S\<lparr>nextBillingDate := day y 0 31\<rparr>) = MONTHLY"
    "monthIndex (nextBillingDate (subscription_S\<lparr>nextBillingDate := day y 0 31\<rparr>)) < 11"
    "dayOfMonth (nextBillingDate (subscription_S\<lparr>nextBillingDate := day y 0 31\<rparr>)) \<le> 31" for y
    by (simp_all add: subscription_S_def day_def)
  have b: "daysInMonth (fullYear (nextBillingDate (subscription_S\<lparr>nextBillingDate := day y 0 31\<rparr>)))
            (monthIndex (nextBillingDate (subscription_S\<lparr>nextBillingDate := day y 0 31\<rparr>)) + 1)
           < dayOfMonth (nextBillingDate (subscription_S\<lparr>nextBillingDate := day y 0 31\<rparr>))" for y
    by (simp add: subscription_S_def day_def daysInMonth_def)
  have l: "\<not> isLeapYear 2023" "isLeapYear 2024" by (simp_all add: isLeapYear_def)
  from monthly_advance_overflows [OF a b, of 2023] monthly_advance_overflows [OF a b, of 2024] l
  show ?thesis
    by (simp add: day_def daysInMonth_def)
qed


subsection \<open>One subscription, no fault\<close>

lemma process_subscription_ok:
  assumes "map_of (accounts d) (sub_accountId s) = Some account"
    and "references_ok (sub_accountId s) (sub_categoryId s) d"
    and "map_of (subscriptions d) subId = Some s0"
  shows "process_subscription None (subId, s) d =
           (Processed subId,
            d\<lparr>transactions :=
                 transactions d @ [(fresh_id (transactions d), subscription_expense subId s account)],
              accounts :=
                 AList.update (sub_accountId s) (account\<lparr>balance := balance account - sub_amount s\<rparr>)
                   (accounts d),
              subscriptions :=
                 AList.update subId (s0\<lparr>nextBillingDate := next_billing_date s\<rparr>)
                   (subscriptions d)\<rparr>)"
proof -
  have e: "accountId (subscription_expense subId s account) = sub_accountId s"
    "categoryId (subscription_expense subId s account) = sub_categoryId s"
    by (simp_all add: subscription_expense_def)
  define d1 where "d1 = d\<lparr>transactions :=
      transactions d @ [(fresh_id (transactions d), subscription_expense subId s account)]\<rparr>"
  from assms(2) e have c: "transaction_create (subscription_expense subId s account) d
      = Inr (fresh_id (transactions d), d1)"
    by (simp add: transaction_create_def Let_def d1_def)
  define d2 where "d2 = d1\<lparr>accounts :=
      AList.update (sub_accountId s) (account\<lparr>balance := balance account - sub_amount s\<rparr>)
        (accounts d1)\<rparr>"
  from assms(1) have u: "account_update_decrement (sub_accountId s) (sub_amount s) d1 = Inr d2"
    by (simp add: account_update_decrement_def d1_def d2_def)
  define d3 where "d3 = d2\<lparr>subscriptions :=
      AList.update subId (s0\<lparr>nextBillingDate := next_billing_date s\<rparr>) (subscriptions d2)\<rparr>"
  from assms(3) have v: "subscription_update subId (next_billing_date s) d2 = Inr d3"
    by (simp add: subscription_update_def d1_def d2_def d3_def)
  from assms(1) c u v have "process_subscription None (subId, s) d = (Processed subId, d3)"
    by (simp add: process_subscription_def account_findUnique_def)
  then show ?thesis by (simp add: d1_def d2_def d3_def)
qed

lemma unit_effect:
  assumes "payable d (subId, s)"
  shows "\<exists>d1. process_subscription None (subId, s) d = (Processed subId, d1)
     \<and> map snd (transactions d1) = map snd (transactions d) @ [expected_expense d (subId, s)]
     \<and> (\<forall>a. balance_of d1 a
              = balance_of d a - (if sub_accountId s = a then sub_amount s else 0))
     \<and> (\<forall>a. map_option acc_currency (map_of (accounts d1) a)
              = map_option acc_currency (map_of (accounts d) a))
     \<and> (\<forall>row. payable d1 row = payable d row)
     \<and> map_of (subscriptions d1)
         = (map_of (subscriptions d))
             (subId \<mapsto> (the (map_of (subscriptions d) subId))
                          \<lparr>nextBillingDate := next_billing_date s\<rparr>)"
proof -
  from assms obtain account s0 where
    a: "map_of (accounts d) (sub_accountId s) = Some account"
    and r: "references_ok (sub_accountId s) (sub_categoryId s) d"
    and s0: "map_of (subscriptions d) subId = Some s0"
    by (auto simp: payable_def references_ok_def)
  define d1 where "d1 = d\<lparr>transactions :=
                 transactions d @ [(fresh_id (transactions d), subscription_expense subId s account)],
              accounts :=
                 AList.update (sub_accountId s) (account\<lparr>balance := balance account - sub_amount s\<rparr>)
                   (accounts d),
              subscriptions :=
                 AList.update subId (s0\<lparr>nextBillingDate := next_billing_date s\<rparr>)
                   (subscriptions d)\<rparr>"
  have p: "process_subscription None (subId, s) d = (Processed subId, d1)"
    unfolding d1_def by (rule process_subscription_ok [OF a r s0])
  have t: "map snd (transactions d1) = map snd (transactions d) @ [expected_expense d (subId, s)]"
    by (simp add: d1_def expected_expense_def a)
  have m: "map_of (accounts d1)
      = (map_of (accounts d))(sub_accountId s \<mapsto> account\<lparr>balance := balance account - sub_amount s\<rparr>)"
    by (simp add: d1_def update_conv')
  have b: "\<forall>a. balance_of d1 a
              = balance_of d a - (if sub_accountId s = a then sub_amount s else 0)"
    using a by (auto simp: balance_of_def m)
  have c: "\<forall>a. map_option acc_currency (map_of (accounts d1) a)
              = map_option acc_currency (map_of (accounts d) a)"
    using a by (auto simp: m)
  have u: "map_of (subscriptions d1)
         = (map_of (subscriptions d))
             (subId \<mapsto> (the (map_of (subscriptions d) subId))
                          \<lparr>nextBillingDate := next_billing_date s\<rparr>)"
    by (simp add: d1_def update_conv' s0)
  have k: "(map_of (accounts d1) x \<noteq> None) = (map_of (accounts d) x \<noteq> None)" for x
    using a by (auto simp: m)
  have k2: "(map_of (subscriptions d1) x \<noteq> None) = (map_of (subscriptions d) x \<noteq> None)" for x
    using s0 by (auto simp: u)
  have k3: "categories d1 = categories d" by (simp add: d1_def)
  have q: "\<forall>row. payable d1 row = payable d row"
    unfolding payable_def references_ok_def k k2 k3 by simp
  from p t b c q u show ?thesis by blast
qed

lemma expected_expense_cong:
  assumes "\<forall>a. map_option acc_currency (map_of (accounts d1) a)
              = map_option acc_currency (map_of (accounts d) a)"
  shows "expected_expense d1 row = expected_expense d row"
proof -
  from assms have "map_option acc_currency (map_of (accounts d1) (sub_accountId (snd row)))
              = map_option acc_currency (map_of (accounts d) (sub_accountId (snd row)))"
    by blast
  then have "acc_currency (the (map_of (accounts d1) (sub_accountId (snd row))))
      = acc_currency (the (map_of (accounts d) (sub_accountId (snd row))))"
    by (cases "map_of (accounts d1) (sub_accountId (snd row))";
        cases "map_of (accounts d) (sub_accountId (snd row))") simp_all
  then show ?thesis by (simp add: expected_expense_def subscription_expense_def)
qed

lemma process_due_ok:
  assumes "list_all (payable d) subs"
  shows "\<exists>d'. process_due no_faults subs d = (map (\<lambda>row. Processed (fst row)) subs, d')
      \<and> map snd (transactions d') = map snd (transactions d) @ map (expected_expense d) subs
      \<and> (\<forall>a. balance_of d' a = balance_of d a - charged a subs)"
  using assms
proof (induction subs arbitrary: d)
  case Nil
  then show ?case by (simp add: charged_def)
next
  case (Cons row subs)
  obtain subId s where row: "row = (subId, s)" by (cases row)
  from Cons.prems row have "payable d (subId, s)" by simp
  from unit_effect [OF this] obtain d1 where
    p: "process_subscription None (subId, s) d = (Processed subId, d1)"
    and t: "map snd (transactions d1) = map snd (transactions d) @ [expected_expense d (subId, s)]"
    and b: "\<forall>a. balance_of d1 a
              = balance_of d a - (if sub_accountId s = a then sub_amount s else 0)"
    and c: "\<forall>a. map_option acc_currency (map_of (accounts d1) a)
              = map_option acc_currency (map_of (accounts d) a)"
    and q: "\<forall>row. payable d1 row = payable d row"
    by blast
  from Cons.prems q have "list_all (payable d1) subs" by (auto simp: list_all_iff)
  from Cons.IH [OF this] obtain d' where
    l: "process_due no_faults subs d1 = (map (\<lambda>row. Processed (fst row)) subs, d')"
    and t': "map snd (transactions d') = map snd (transactions d1) @ map (expected_expense d1) subs"
    and b': "\<forall>a. balance_of d' a = balance_of d1 a - charged a subs"
    by blast
  from c have "expected_expense d1 = expected_expense d"
    by (intro ext expected_expense_cong)
  with t t' row have "map snd (transactions d')
      = map snd (transactions d) @ map (expected_expense d) (row # subs)"
    by simp
  moreover from b b' row have "\<forall>a. balance_of d' a = balance_of d a - charged a (row # subs)"
    by (simp add: charged_def)
  moreover from p l row
  have "process_due no_faults (row # subs) d = (map (\<lambda>row. Processed (fst row)) (row # subs), d')"
    by (simp add: no_faults_def)
  ultimately show ?case by blast
qed

lemma process_due_subscriptions:
  assumes "list_all (payable d) subs" "distinct (map fst subs)"
    and "\<forall>row \<in> set subs. map_of (subscriptions d) (fst row) = Some (snd row)"
  shows "map_of (subscriptions (snd (process_due no_faults subs d))) i =
           (case map_of subs i of
              None \<Rightarrow> map_of (subscriptions d) i
            | Some s \<Rightarrow> Some (s\<lparr>nextBillingDate := next_billing_date s\<rparr>))"
  using assms
proof (induction subs arbitrary: d)
  case Nil
  then show ?case by simp
next
  case (Cons row subs)
  obtain subId s where row: "row = (subId, s)" by (cases row)
  from Cons.prems row have "payable d (subId, s)" by simp
  from unit_effect [OF this] obtain d1 where
    p: "process_subscription None (subId, s) d = (Processed subId, d1)"
    and q: "\<forall>row. payable d1 row = payable d row"
    and u: "map_of (subscriptions d1)
         = (map_of (subscriptions d))
             (subId \<mapsto> (the (map_of (subscriptions d) subId))
                          \<lparr>nextBillingDate := next_billing_date s\<rparr>)"
    by blast
  from Cons.prems(3) row have s0: "map_of (subscriptions d) subId = Some s" by simp
  from Cons.prems(2) row have fresh: "subId \<notin> fst ` set subs" and dist: "distinct (map fst subs)"
    by simp_all
  from Cons.prems(1) q have 1: "list_all (payable d1) subs" by (auto simp: list_all_iff)
  from Cons.prems(3) fresh u
  have 3: "\<forall>row \<in> set subs. map_of (subscriptions d1) (fst row) = Some (snd row)"
    by auto
  from fresh have none: "map_of subs subId = None" by (simp add: map_of_eq_None_iff)
  from p row have "snd (process_due no_faults (row # subs) d) = snd (process_due no_faults subs d1)"
    by (simp add: no_faults_def split: prod.splits)
  with Cons.IH [OF 1 dist 3] u s0 none row show ?case
    by (auto split: option.splits)
qed

subsection \<open>A run of the processor\<close>

lemma due_rows:
  assumes "row \<in> set (subscription_findMany now d)"
  shows "row \<in> set (subscriptions d)" "sub_isActive (snd row)"
    "date_le (nextBillingDate (snd row)) now" "map_of (subscriptions d) (fst row) \<noteq> None"
proof -
  from assms show "row \<in> set (subscriptions d)" "sub_isActive (snd row)"
    "date_le (nextBillingDate (snd row)) now"
    by (auto simp: subscription_findMany_def)
  then have "fst row \<in> fst ` set (subscriptions d)" by blast
  then show "map_of (subscriptions d) (fst row) \<noteq> None" by (simp add: map_of_eq_None_iff)
qed

lemma due_payable:
  assumes "\<forall>row \<in> set (subscription_findMany now d).
             references_ok (sub_accountId (snd row)) (sub_categoryId (snd row)) d"
  shows "list_all (payable d) (subscription_findMany now d)"
  using assms due_rows(4) by (auto simp: list_all_iff payable_def)

lemma run_ok:
  assumes "\<forall>row \<in> set (subscription_findMany now d).
             references_ok (sub_accountId (snd row)) (sub_categoryId (snd row)) d"
  shows "\<exists>d'. processSubscriptions now False no_faults d
                 = Inr (map (\<lambda>row. Processed (fst row)) (subscription_findMany now d), d')
      \<and> process_due no_faults (subscription_findMany now d) d
                 = (map (\<lambda>row. Processed (fst row)) (subscription_findMany now d), d')
      \<and> map snd (transactions d')
          = map snd (transactions d) @ map (expected_expense d) (subscription_findMany now d)
      \<and> (\<forall>a. balance_of d' a = balance_of d a - charged a (subscription_findMany now d))"
  using process_due_ok [OF due_payable [OF assms]]
  by (auto simp: processSubscriptions_def)

lemma expected_expense_fields:
  "txType (expected_expense d row) = EXPENSE"
  "amount (expected_expense d row) = sub_amount (snd row)"
  "tx_date (expected_expense d row) = nextBillingDate (snd row)"
  "accountId (expected_expense d row) = sub_accountId (snd row)"
  "currency (expected_expense d row)
     = acc_currency (the (map_of (accounts d) (sub_accountId (snd row))))"
  "metadata (expected_expense d row)
     = Some \<lparr>subscriptionId = fst row, subscriptionName = sub_name (snd row),
             meta_billingCycle = billingCycle (snd row)\<rparr>"
  by (simp_all add: expected_expense_def subscription_expense_def)

text \<open>
  C8. When no storage call fails and the foreign keys of the due subscriptions hold,
  a run processes every due subscription and appends one transaction for each, in
  order: an EXPENSE of the subscription's amount, dated at the subscription's current
  next billing date, in the currency of the subscription's account, with metadata
  naming the subscription's id, name and billing cycle. Every account's balance goes
  down by the amounts of the due subscriptions that name it.
\<close>

theorem billing_run:
  assumes "\<forall>row \<in> set (subscription_findMany now d).
             references_ok (sub_accountId (snd row)) (sub_categoryId (snd row)) d"
  shows "\<exists>d'. processSubscriptions now False no_faults d
                 = Inr (map (\<lambda>row. Processed (fst row)) (subscription_findMany now d), d')
      \<and> map snd (transactions d')
          = map snd (transactions d) @ map (expected_expense d) (subscription_findMany now d)
      \<and> (\<forall>a. balance_of d' a = balance_of d a - charged a (subscription_findMany now d))
      \<and> (\<forall>row \<in> set (subscription_findMany now d).
            txType (expected_expense d row) = EXPENSE
          \<and> amount (expected_expense d row) = sub_amount (snd row)
          \<and> tx_date (expected_expense d row) = nextBillingDate (snd row)
          \<and> accountId (expected_expense d row) = sub_accountId (snd row)
          \<and> currency (expected_expense d row)
              = acc_currency (the (map_of (accounts d) (sub_accountId (snd row))))
          \<and> metadata (expected_expense d row)
              = Some \<lparr>subscriptionId = fst row, subscriptionName = sub_name (snd row),
                      meta_billingCycle = billingCycle (snd row)\<rparr>)"
  using run_ok [OF assms] unfolding expected_expense_fields by blast

theorem billing_run_witness:
  "subscription_findMany (day 2024 0 1) db_S = [(''S'', subscription_S)]
   \<and> balance_of db_S ''A'' = 100
   \<and> (\<exists>d'. processSubscriptions (day 2024 0 1) False no_faults db_S = Inr ([Processed ''S''], d')
         \<and> map snd (transactions d') = [expected_expense db_S (''S'', subscription_S)]
         \<and> balance_of d' ''A'' = 80
         \<and> map_of (subscriptions d') ''S''
             = Some (subscription_S\<lparr>nextBillingDate := day 2024 1 1\<rparr>))
   \<and> amount (expected_expense db_S (''S'', subscription_S)) = 20
   \<and> currency (expected_expense db_S (''S'', subscription_S)) = ''USD''
   \<and> tx_date (expected_expense db_S (''S'', subscription_S)) = day 2024 0 1"
proof -
  have due: "subscription_findMany (day 2024 0 1) db_S = [(''S'', subscription_S)]"
    by code_simp
  have refs: "\<forall>row \<in> set (subscription_findMany (day 2024 0 1) db_S).
             references_ok (sub_accountId (snd row)) (sub_categoryId (snd row)) db_S"
    unfolding due by (simp, code_simp)
  have b: "balance_of db_S ''A'' = 100" "charged ''A'' [(''S'', subscription_S)] = 20"
    "transactions db_S = []"
    by code_simp+
  have n: "map_of (subscriptions (snd (projr
              (processSubscriptions (day 2024 0 1) False no_faults db_S)))) ''S''
             = Some (subscription_S\<lparr>nextBillingDate := day 2024 1 1\<rparr>)"
    by code_simp
  have f: "amount (expected_expense db_S (''S'', subscription_S)) = 20"
    "currency (expected_expense db_S (''S'', subscription_S)) = ''USD''"
    "tx_date (expected_expense db_S (''S'', subscription_S)) = day 2024 0 1"
    by code_simp+
  from billing_run [OF refs] obtain d' where
    r: "processSubscriptions (day 2024 0 1) False no_faults db_S = Inr ([Processed ''S''], d')"
    and t: "map snd (transactions d') = [expected_expense db_S (''S'', subscription_S)]"
    and c: "\<forall>a. balance_of d' a = balance_of db_S a - charged a [(''S'', subscription_S)]"
    unfolding due by (auto simp: b)
  from c b have "balance_of d' ''A'' = 80" by simp
  moreover from n r have "map_of (subscriptions d') ''S''
             = Some (subscription_S\<lparr>nextBillingDate := day 2024 1 1\<rparr>)" by simp
  ultimately have "\<exists>d'. processSubscriptions (day 2024 0 1) False no_faults db_S
           = Inr ([Processed ''S''], d')
         \<and> map snd (transactions d') = [expected_expense db_S (''S'', subscription_S)]
         \<and> balance_of d' ''A'' = 80
         \<and> map_of (subscriptions d') ''S''
             = Some (subscription_S\<lparr>nextBillingDate := day 2024 1 1\<rparr>)"
    using r t by (intro exI [of _ d']) simp
  with due b(1) f show ?thesis by (intro conjI)
qed

lemma one_row_per_key:
  assumes "distinct (map fst xs)" "row \<in> set xs"
  shows "length (filter (\<lambda>r. fst r = fst row) xs) = 1"
  using assms
proof (induction xs)
  case Nil
  then show ?case by simp
next
  case (Cons x xs)
  show ?case
  proof (cases "x = row")
    case True
    with Cons.prems(1) have "fst row \<notin> fst ` set xs" by simp
    then have "\<forall>r \<in> set xs. fst r \<noteq> fst row" by (metis imageI)
    then have "filter (\<lambda>r. fst r = fst row) xs = []"
      by (simp add: filter_empty_conv)
    with True show ?thesis by simp
  next
    case False
    with Cons.prems have "row \<in> set xs" "fst x \<noteq> fst row" by force+
    with Cons.IH Cons.prems(1) show ?thesis by simp
  qed
qed

lemma emitted_for_append:
  assumes "map snd (transactions d') = map snd (transactions d) @ map (expected_expense d) subs"
  shows "emitted_for subId d' = emitted_for subId d + length (filter (\<lambda>r. fst r = subId) subs)"
proof -
  have "filter (\<lambda>t. map_option subscriptionId (metadata t) = Some subId)
          (map (expected_expense d) subs)
      = map (expected_expense d) (filter (\<lambda>r. fst r = subId) subs)"
    by (simp add: filter_map comp_def expected_expense_fields)
  then have "length (filter (\<lambda>t. map_option subscriptionId (metadata t) = Some subId)
          (map (expected_expense d) subs)) = length (filter (\<lambda>r. fst r = subId) subs)"
    by simp
  with assms show ?thesis by (simp add: emitted_for_def)
qed

lemma run_advances:
  assumes "distinct (map fst (subscriptions d))"
    and "\<forall>row \<in> set (subscription_findMany now d).
             references_ok (sub_accountId (snd row)) (sub_categoryId (snd row)) d"
  shows "\<exists>d'. processSubscriptions now False no_faults d
                 = Inr (map (\<lambda>row. Processed (fst row)) (subscription_findMany now d), d')
      \<and> length (transactions d')
          = length (transactions d) + length (subscription_findMany now d)
      \<and> (\<forall>row \<in> set (subscription_findMany now d).
            map_of (subscriptions d') (fst row)
              = Some ((snd row)\<lparr>nextBillingDate := next_billing_date (snd row)\<rparr>)
          \<and> emitted_for (fst row) d' = emitted_for (fst row) d + 1
          \<and> (date_le (next_billing_date (snd row)) now \<longrightarrow>
               (fst row, (snd row)\<lparr>nextBillingDate := next_billing_date (snd row)\<rparr>)
                 \<in> set (subscription_findMany now d')))
      \<and> (\<forall>i. i \<notin> fst ` set (subscription_findMany now d) \<longrightarrow>
            map_of (subscriptions d') i = map_of (subscriptions d) i)"
proof -
  define due where "due = subscription_findMany now d"
  from run_ok [OF assms(2)] obtain d' where
    r: "processSubscriptions now False no_faults d
          = Inr (map (\<lambda>row. Processed (fst row)) due, d')"
    and l: "process_due no_faults due d = (map (\<lambda>row. Processed (fst row)) due, d')"
    and t: "map snd (transactions d') = map snd (transactions d) @ map (expected_expense d) due"
    unfolding due_def by blast
  have dist: "distinct (map fst due)"
    unfolding due_def subscription_findMany_def using assms(1) by (rule distinct_map_filter)
  have known: "\<forall>row \<in> set due. map_of (subscriptions d) (fst row) = Some (snd row)"
    using assms(1) due_rows(1) [of _ now d] by (auto simp: due_def)
  from l have d': "d' = snd (process_due no_faults due d)" by simp
  have subs: "map_of (subscriptions d') i =
           (case map_of due i of
              None \<Rightarrow> map_of (subscriptions d) i
            | Some s \<Rightarrow> Some (s\<lparr>nextBillingDate := next_billing_date s\<rparr>))" for i
    unfolding d' due_def
    by (rule process_due_subscriptions [OF due_payable [OF assms(2)] dist [unfolded due_def]
          known [unfolded due_def]])
  from t have "length (map snd (transactions d'))
      = length (map snd (transactions d) @ map (expected_expense d) due)" by simp
  then have len: "length (transactions d') = length (transactions d) + length due" by simp
  have each: "map_of (subscriptions d') (fst row)
              = Some ((snd row)\<lparr>nextBillingDate := next_billing_date (snd row)\<rparr>)
          \<and> emitted_for (fst row) d' = emitted_for (fst row) d + 1
          \<and> (date_le (next_billing_date (snd row)) now \<longrightarrow>
               (fst row, (snd row)\<lparr>nextBillingDate := next_billing_date (snd row)\<rparr>)
                 \<in> set (subscription_findMany now d'))" if "row \<in> set due" for row
  proof -
    from that dist have "map_of due (fst row) = Some (snd row)" by simp
    with subs [of "fst row"] have m: "map_of (subscriptions d') (fst row)
              = Some ((snd row)\<lparr>nextBillingDate := next_billing_date (snd row)\<rparr>)"
      by simp
    from emitted_for_append [OF t] one_row_per_key [OF dist that]
    have e: "emitted_for (fst row) d' = emitted_for (fst row) d + 1" by simp
    from m have "(fst row, (snd row)\<lparr>nextBillingDate := next_billing_date (snd row)\<rparr>)
        \<in> set (subscriptions d')" by (rule map_of_SomeD)
    moreover from that have "sub_isActive (snd row)" unfolding due_def by (rule due_rows(2))
    ultimately have "date_le (next_billing_date (snd row)) now \<longrightarrow>
               (fst row, (snd row)\<lparr>nextBillingDate := next_billing_date (snd row)\<rparr>)
                 \<in> set (subscription_findMany now d')"
      by (simp add: subscription_findMany_def)
    with m e show ?thesis by blast
  qed
  have other: "map_of (subscriptions d') i = map_of (subscriptions d) i"
    if "i \<notin> fst ` set due" for i
  proof -
    from that have "map_of due i = None" by (simp add: map_of_eq_None_iff)
    with subs [of i] show ?thesis by simp
  qed
  from r len each other show ?thesis unfolding due_def by blast
qed

lemma monthly_overflow:
  assumes "billingCycle s = MONTHLY" "monthIndex (nextBillingDate s) < 11"
    and "dayOfMonth (nextBillingDate s) \<le> 31"
    and "daysInMonth (fullYear (nextBillingDate s)) (monthIndex (nextBillingDate s) + 1)
           < dayOfMonth (nextBillingDate s)"
  shows "next_billing_date s
           = (nextBillingDate s)
               \<lparr>monthIndex := monthIndex (nextBillingDate s) + 2,
                dayOfMonth := dayOfMonth (nextBillingDate s)
                  - daysInMonth (fullYear (nextBillingDate s))
                      (monthIndex (nextBillingDate s) + 1)\<rparr>"
proof -
  define nbd where "nbd = nextBillingDate s"
  define m1 where "m1 = Suc (monthIndex nbd)"
  from assms(2) have m1: "m1 mod 12 = m1" "m1 div 12 = 0"
    by (simp_all add: m1_def nbd_def)
  from assms(4) have over: "daysInMonth (fullYear nbd) m1 < dayOfMonth nbd"
    by (simp add: nbd_def m1_def)
  have "m1 \<noteq> 11"
  proof
    assume "m1 = 11"
    with over assms(3) show False by (simp add: daysInMonth_def nbd_def)
  qed
  with makeDay_overflow [OF over] assms(3)
  have "makeDay (fullYear nbd) m1 (dayOfMonth nbd)
          = (fullYear nbd, Suc m1, dayOfMonth nbd - daysInMonth (fullYear nbd) m1)"
    by (simp add: nbd_def)
  with assms(1) m1 have "next_billing_date s
      = nbd\<lparr>monthIndex := Suc m1, dayOfMonth := dayOfMonth nbd - daysInMonth (fullYear nbd) m1\<rparr>"
    by (simp add: next_billing_date_def Let_def setMonth_def nbd_def [symmetric]
          m1_def [symmetric])
  then show ?thesis by (simp add: nbd_def [symmetric] m1_def)
qed

lemma yearly_overflow:
  assumes "billingCycle s = YEARLY" "monthIndex (nextBillingDate s) < 11"
    and "dayOfMonth (nextBillingDate s) \<le> 31"
    and "daysInMonth (fullYear (nextBillingDate s) + 1) (monthIndex (nextBillingDate s))
           < dayOfMonth (nextBillingDate s)"
  shows "next_billing_date s
           = (nextBillingDate s)
               \<lparr>fullYear := fullYear (nextBillingDate s) + 1,
                monthIndex := monthIndex (nextBillingDate s) + 1,
                dayOfMonth := dayOfMonth (nextBillingDate s)
                  - daysInMonth (fullYear (nextBillingDate s) + 1)
                      (monthIndex (nextBillingDate s))\<rparr>"
proof -
  define nbd where "nbd = nextBillingDate s"
  from assms(4) have over: "daysInMonth (fullYear nbd + 1) (monthIndex nbd) < dayOfMonth nbd"
    by (simp add: nbd_def)
  from assms(2) have "monthIndex nbd \<noteq> 11" by (simp add: nbd_def)
  with makeDay_overflow [OF over] assms(3)
  have "makeDay (fullYear nbd + 1) (monthIndex nbd) (dayOfMonth nbd)
          = (fullYear nbd + 1, Suc (monthIndex nbd),
             dayOfMonth nbd - daysInMonth (fullYear nbd + 1) (monthIndex nbd))"
    by (simp add: nbd_def)
  with assms(1) show ?thesis
    by (simp add: next_billing_date_def Let_def setFullYear_def nbd_def [symmetric])
qed

text \<open>
  The advance is not always one month. Subscription S, MONTHLY and due since January
  31, 2023, is given March 3, 2023 by a run: two month indexes on, and not the last
  day of February either.
\<close>

theorem advance_one_month_counterexample:
  "subscription_findMany (day 2024 0 1) db_jan31
     = [(''S'', subscription_S\<lparr>nextBillingDate := day 2023 0 31\<rparr>)]
   \<and> billingCycle subscription_S = MONTHLY
   \<and> fst (projr (processSubscriptions (day 2024 0 1) False no_faults db_jan31))
       = [Processed ''S'']
   \<and> map_of (subscriptions
               (snd (projr (processSubscriptions (day 2024 0 1) False no_faults db_jan31)))) ''S''
       = Some (subscription_S\<lparr>nextBillingDate := day 2023 2 3\<rparr>)
   \<and> monthIndex (day 2023 2 3) \<noteq> monthIndex (day 2023 0 31) + 1
   \<and> day 2023 2 3 \<noteq> day 2023 1 28"
  by code_simp

text \<open>
  C7, as the code has it. When no storage call fails, the ids of the subscriptions
  are distinct and the foreign keys of the due subscriptions hold, a run gives every
  due subscription the next billing date computed from its own current one (the
  clock is not an argument of \<open>next_billing_date\<close>), emits exactly one transaction
  that points back to it, and leaves it due when the new date is still not after the
  clock; the other subscriptions keep their rows. The next billing date is what
  \<^verbatim>\<open>setMonth(getMonth() + 1)\<close> or \<^verbatim>\<open>setFullYear(getFullYear() + 1)\<close> makes of the
  current one. For MONTHLY that is the same day one month on (January of the next
  year after December) when that day exists, and otherwise the overshoot of the day
  in the month after that one. For YEARLY it is the same day and month one year on
  when that day exists, and otherwise (February 29) the overshoot in the following
  month. With a day of at most 31 and a month index below 12 these cases are all
  there are.
\<close>

theorem advance_one_cycle:
  assumes "distinct (map fst (subscriptions d))"
    and "\<forall>row \<in> set (subscription_findMany now d).
             references_ok (sub_accountId (snd row)) (sub_categoryId (snd row)) d"
  shows "(\<exists>d'. processSubscriptions now False no_faults d
                 = Inr (map (\<lambda>row. Processed (fst row)) (subscription_findMany now d), d')
      \<and> length (transactions d')
          = length (transactions d) + length (subscription_findMany now d)
      \<and> (\<forall>row \<in> set (subscription_findMany now d).
            map_of (subscriptions d') (fst row)
              = Some ((snd row)\<lparr>nextBillingDate := next_billing_date (snd row)\<rparr>)
          \<and> emitted_for (fst row) d' = emitted_for (fst row) d + 1
          \<and> (date_le (next_billing_date (snd row)) now \<longrightarrow>
               (fst row, (snd row)\<lparr>nextBillingDate := next_billing_date (snd row)\<rparr>)
                 \<in> set (subscription_findMany now d')))
      \<and> (\<forall>i. i \<notin> fst ` set (subscription_findMany now d) \<longrightarrow>
            map_of (subscriptions d') i = map_of (subscriptions d) i))
    \<and> (\<forall>s. billingCycle s = MONTHLY \<and> monthIndex (nextBillingDate s) < 11
            \<and> dayOfMonth (nextBillingDate s)
                 \<le> daysInMonth (fullYear (nextBillingDate s)) (monthIndex (nextBillingDate s) + 1)
          \<longrightarrow> next_billing_date s
                = (nextBillingDate s)\<lparr>monthIndex := monthIndex (nextBillingDate s) + 1\<rparr>)
    \<and> (\<forall>s. billingCycle s = MONTHLY \<and> monthIndex (nextBillingDate s) = 11
            \<and> dayOfMonth (nextBillingDate s) \<le> 31
          \<longrightarrow> next_billing_date s
                = (nextBillingDate s)\<lparr>fullYear := fullYear (nextBillingDate s) + 1,
                                       monthIndex := 0\<rparr>)
    \<and> (\<forall>s. billingCycle s = YEARLY
            \<and> dayOfMonth (nextBillingDate s)
                 \<le> daysInMonth (fullYear (nextBillingDate s) + 1) (monthIndex (nextBillingDate s))
          \<longrightarrow> next_billing_date s
                = (nextBillingDate s)\<lparr>fullYear := fullYear (nextBillingDate s) + 1\<rparr>)
    \<and> (\<forall>s. billingCycle s = MONTHLY \<and> monthIndex (nextBillingDate s) < 11
            \<and> dayOfMonth (nextBillingDate s) \<le> 31
            \<and> daysInMonth (fullYear (nextBillingDate s)) (monthIndex (nextBillingDate s) + 1)
                 < dayOfMonth (nextBillingDate s)
          \<longrightarrow> next_billing_date s
                = (nextBillingDate s)
                    \<lparr>monthIndex := monthIndex (nextBillingDate s) + 2,
                     dayOfMonth := dayOfMonth (nextBillingDate s)
                       - daysInMonth (fullYear (nextBillingDate s))
                           (monthIndex (nextBillingDate s) + 1)\<rparr>)
    \<and> (\<forall>s. billingCycle s = YEARLY \<and> monthIndex (nextBillingDate s) < 11
            \<and> dayOfMonth (nextBillingDate s) \<le> 31
            \<and> daysInMonth (fullYear (nextBillingDate s) + 1) (monthIndex (nextBillingDate s))
                 < dayOfMonth (nextBillingDate s)
          \<longrightarrow> next_billing_date s
                = (nextBillingDate s)
                    \<lparr>fullYear := fullYear (nextBillingDate s) + 1,
                     monthIndex := monthIndex (nextBillingDate s) + 1,
                     dayOfMonth := dayOfMonth (nextBillingDate s)
                       - daysInMonth (fullYear (nextBillingDate s) + 1)
                           (monthIndex (nextBillingDate s))\<rparr>)"
  apply (intro conjI allI impI)
  using run_advances [OF assms] apply blast
  using monthly_fits apply blast
  using monthly_december apply blast
  using yearly_fits apply blast
  using monthly_overflow apply blast
  using yearly_overflow apply blast
  done

theorem advance_one_cycle_witness:
  "subscription_findMany (day 2024 0 1) db_overdue
     = [(''S'', subscription_S\<lparr>nextBillingDate := day 2023 9 1\<rparr>)]
   \<and> (\<exists>d'. processSubscriptions (day 2024 0 1) False no_faults db_overdue
              = Inr ([Processed ''S''], d')
         \<and> length (transactions d') = 1
         \<and> emitted_for ''S'' d' = 1
         \<and> map_of (subscriptions d') ''S''
             = Some (subscription_S\<lparr>nextBillingDate := day 2023 10 1\<rparr>)
         \<and> (''S'', subscription_S\<lparr>nextBillingDate := day 2023 10 1\<rparr>)
             \<in> set (subscription_findMany (day 2024 0 1) d'))
   \<and> next_billing_date (subscription_S\<lparr>nextBillingDate := day 2023 0 31\<rparr>) = day 2023 2 3
   \<and> next_billing_date (subscription_S\<lparr>billingCycle := YEARLY, nextBillingDate := day 2024 1 29\<rparr>)
       = day 2025 2 1"
proof -
  define s where "s = subscription_S\<lparr>nextBillingDate := day 2023 9 1\<rparr>"
  have due: "subscription_findMany (day 2024 0 1) db_overdue = [(''S'', s)]"
    unfolding s_def by code_simp
  have dist: "distinct (map fst (subscriptions db_overdue))" by code_simp
  have refs: "\<forall>row \<in> set (subscription_findMany (day 2024 0 1) db_overdue).
             references_ok (sub_accountId (snd row)) (sub_categoryId (snd row)) db_overdue"
    unfolding due unfolding s_def by (simp, code_simp)
  have m: "billingCycle s = MONTHLY \<and> monthIndex (nextBillingDate s) < 11
            \<and> dayOfMonth (nextBillingDate s)
                 \<le> daysInMonth (fullYear (nextBillingDate s)) (monthIndex (nextBillingDate s) + 1)"
    unfolding s_def by code_simp
  have z: "length (transactions db_overdue) = 0" "emitted_for ''S'' db_overdue = 0"
    "s\<lparr>nextBillingDate := (nextBillingDate s)\<lparr>monthIndex := monthIndex (nextBillingDate s) + 1\<rparr>\<rparr>
       = subscription_S\<lparr>nextBillingDate := day 2023 10 1\<rparr>"
    "date_le ((nextBillingDate s)\<lparr>monthIndex := monthIndex (nextBillingDate s) + 1\<rparr>) (day 2024 0 1)"
    unfolding s_def by code_simp+
  note a = advance_one_cycle [OF dist refs]
  from m have n: "next_billing_date s
      = (nextBillingDate s)\<lparr>monthIndex := monthIndex (nextBillingDate s) + 1\<rparr>"
    using a [THEN conjunct2, THEN conjunct1] by blast
  define j where "j = subscription_S\<lparr>nextBillingDate := day 2023 0 31\<rparr>"
  define y where "y = subscription_S\<lparr>billingCycle := YEARLY, nextBillingDate := day 2024 1 29\<rparr>"
  have oj: "billingCycle j = MONTHLY \<and> monthIndex (nextBillingDate j) < 11
            \<and> dayOfMonth (nextBillingDate j) \<le> 31
            \<and> daysInMonth (fullYear (nextBillingDate j)) (monthIndex (nextBillingDate j) + 1)
                 < dayOfMonth (nextBillingDate j)"
    unfolding j_def by code_simp
  have oy: "billingCycle y = YEARLY \<and> monthIndex (nextBillingDate y) < 11
            \<and> dayOfMonth (nextBillingDate y) \<le> 31
            \<and> daysInMonth (fullYear (nextBillingDate y) + 1) (monthIndex (nextBillingDate y))
                 < dayOfMonth (nextBillingDate y)"
    unfolding y_def by code_simp
  have v: "(nextBillingDate j)
             \<lparr>monthIndex := monthIndex (nextBillingDate j) + 2,
              dayOfMonth := dayOfMonth (nextBillingDate j)
                - daysInMonth (fullYear (nextBillingDate j)) (monthIndex (nextBillingDate j) + 1)\<rparr>
           = day 2023 2 3"
    "(nextBillingDate y)
             \<lparr>fullYear := fullYear (nextBillingDate y) + 1,
              monthIndex := monthIndex (nextBillingDate y) + 1,
              dayOfMonth := dayOfMonth (nextBillingDate y)
                - daysInMonth (fullYear (nextBillingDate y) + 1) (monthIndex (nextBillingDate y))\<rparr>
           = day 2025 2 1"
    unfolding j_def y_def by code_simp+
  from oj have "next_billing_date j = (nextBillingDate j)
             \<lparr>monthIndex := monthIndex (nextBillingDate j) + 2,
              dayOfMonth := dayOfMonth (nextBillingDate j)
                - daysInMonth (fullYear (nextBillingDate j)) (monthIndex (nextBillingDate j) + 1)\<rparr>"
    using a [THEN conjunct2, THEN conjunct2, THEN conjunct2, THEN conjunct2, THEN conjunct1]
    by blast
  with v(1) have nj: "next_billing_date j = day 2023 2 3" by simp
  from oy have "next_billing_date y = (nextBillingDate y)
             \<lparr>fullYear := fullYear (nextBillingDate y) + 1,
              monthIndex := monthIndex (nextBillingDate y) + 1,
              dayOfMonth := dayOfMonth (nextBillingDate y)
                - daysInMonth (fullYear (nextBillingDate y) + 1) (monthIndex (nextBillingDate y))\<rparr>"
    using a [THEN conjunct2, THEN conjunct2, THEN conjunct2, THEN conjunct2, THEN conjunct2]
    by blast
  with v(2) have ny: "next_billing_date y = day 2025 2 1" by simp
  note run = a [THEN conjunct1]
  from run obtain d' where
    r: "processSubscriptions (day 2024 0 1) False no_faults db_overdue = Inr ([Processed ''S''], d')"
    and l: "length (transactions d') = length (transactions db_overdue) + 1"
    and e: "map_of (subscriptions d') ''S'' = Some (s\<lparr>nextBillingDate := next_billing_date s\<rparr>)"
      "emitted_for ''S'' d' = emitted_for ''S'' db_overdue + 1"
      "date_le (next_billing_date s) (day 2024 0 1) \<longrightarrow>
         (''S'', s\<lparr>nextBillingDate := next_billing_date s\<rparr>)
            \<in> set (subscription_findMany (day 2024 0 1) d')"
    unfolding due by auto
  from r l e n z have "processSubscriptions (day 2024 0 1) False no_faults db_overdue
              = Inr ([Processed ''S''], d')
         \<and> length (transactions d') = 1
         \<and> emitted_for ''S'' d' = 1
         \<and> map_of (subscriptions d') ''S''
             = Some (subscription_S\<lparr>nextBillingDate := day 2023 10 1\<rparr>)
         \<and> (''S'', subscription_S\<lparr>nextBillingDate := day 2023 10 1\<rparr>)
             \<in> set (subscription_findMany (day 2024 0 1) d')"
    by simp
  then have "\<exists>d'. processSubscriptions (day 2024 0 1) False no_faults db_overdue
              = Inr ([Processed ''S''], d')
         \<and> length (transactions d') = 1
         \<and> emitted_for ''S'' d' = 1
         \<and> map_of (subscriptions d') ''S''
             = Some (subscription_S\<lparr>nextBillingDate := day 2023 10 1\<rparr>)
         \<and> (''S'', subscription_S\<lparr>nextBillingDate := day 2023 10 1\<rparr>)
             \<in> set (subscription_findMany (day 2024 0 1) d')"
    by (rule exI)
  with due nj ny show ?thesis unfolding s_def j_def y_def by (intro conjI)
qed

subsection \<open>Failures in a batch\<close>

lemma process_due_append:
  "process_due faults (xs @ ys) d =
     (fst (process_due faults xs d) @ fst (process_due faults ys (snd (process_due faults xs d))),
      snd (process_due faults ys (snd (process_due faults xs d))))"
  by (induction xs arbitrary: d) (simp_all split: prod.splits)

lemma process_subscription_subject:
  "subject (fst (process_subscription fault row d)) = Some (fst row)"
  unfolding process_subscription_def
  by (simp split: prod.splits sum.splits option.splits)

lemma process_due_subjects:
  "map subject (fst (process_due faults subs d)) = map (\<lambda>row. Some (fst row)) subs"
proof (induction subs arbitrary: d)
  case Nil
  then show ?case by simp
next
  case (Cons row subs)
  obtain out d1 where p: "process_subscription (faults (fst row)) row d = (out, d1)"
    by (cases "process_subscription (faults (fst row)) row d")
  with process_subscription_subject [of "faults (fst row)" row d]
  have "subject out = Some (fst row)" by simp
  with p Cons.IH [of d1] show ?case by (auto split: prod.splits)
qed

lemma account_gone:
  assumes "map_of (accounts d) (sub_accountId s) = None" "fault \<noteq> Some 0"
  shows "process_subscription fault (subId, s) d = (AccountNotFound subId, d)"
  using assms by (simp add: process_subscription_def attempt_def account_findUnique_def)

text \<open>
  C9. A run never fails outward: its result is always a value, also when the first
  query throws. Every due subscription gets exactly one outcome, in order, whatever
  the faults. The batch after a prefix goes on from the state the prefix left,
  whatever the outcomes of the prefix were. A subscription whose account is gone is
  logged as such and the rest of the batch is processed from the unchanged state.
\<close>

theorem failure_isolation:
  "(\<exists>r. processSubscriptions now findManyFails faults d = Inr r)
   \<and> map subject (fst (process_due faults subs d)) = map (\<lambda>row. Some (fst row)) subs
   \<and> process_due faults (xs @ ys) d =
       (fst (process_due faults xs d) @ fst (process_due faults ys (snd (process_due faults xs d))),
        snd (process_due faults ys (snd (process_due faults xs d))))
   \<and> (map_of (accounts d) (sub_accountId s) = None \<and> faults subId \<noteq> Some 0 \<longrightarrow>
        process_due faults ((subId, s) # ys) d =
          (AccountNotFound subId # fst (process_due faults ys d), snd (process_due faults ys d)))"
proof -
  have 1: "\<exists>r. processSubscriptions now findManyFails faults d = Inr r"
    by (simp add: processSubscriptions_def)
  have 4: "process_due faults ((subId, s) # ys) d =
          (AccountNotFound subId # fst (process_due faults ys d), snd (process_due faults ys d))"
    if "map_of (accounts d) (sub_accountId s) = None" "faults subId \<noteq> Some 0"
    using account_gone [OF that, of subId] by (simp split: prod.splits)
  from 1 4 process_due_subjects process_due_append show ?thesis by blast
qed

theorem failure_isolation_witness:
  "subscription_findMany (day 2024 0 1) db_batch = subscriptions db_batch
   \<and> map_of (accounts db_batch) ''gone'' = None
   \<and> processSubscriptions (day 2024 0 1) False no_faults db_batch
       = Inr (AccountNotFound ''Z'' # fst (process_due no_faults [(''S'', subscription_S)] db_batch),
              snd (process_due no_faults [(''S'', subscription_S)] db_batch))
   \<and> fst (process_due no_faults [(''S'', subscription_S)] db_batch) = [Processed ''S'']
   \<and> balance_of (snd (process_due no_faults [(''S'', subscription_S)] db_batch)) ''A'' = 80"
proof -
  have due: "subscription_findMany (day 2024 0 1) db_batch = subscriptions db_batch"
    "subscriptions db_batch
       = [(''Z'', subscription_S\<lparr>sub_accountId := ''gone''\<rparr>), (''S'', subscription_S)]"
    by code_simp+
  have g: "map_of (accounts db_batch) (sub_accountId (subscription_S\<lparr>sub_accountId := ''gone''\<rparr>))
      = None" "no_faults ''Z'' \<noteq> Some 0" "map_of (accounts db_batch) ''gone'' = None"
    by code_simp+
  from g(1,2)
  have "process_due no_faults
          ((''Z'', subscription_S\<lparr>sub_accountId := ''gone''\<rparr>) # [(''S'', subscription_S)]) db_batch
      = (AccountNotFound ''Z'' # fst (process_due no_faults [(''S'', subscription_S)] db_batch),
         snd (process_due no_faults [(''S'', subscription_S)] db_batch))"
    using failure_isolation [where d = db_batch and faults = no_faults and subId = "''Z''"
        and s = "subscription_S\<lparr>sub_accountId := ''gone''\<rparr>" and ys = "[(''S'', subscription_S)]"]
    by blast
  then have "processSubscriptions (day 2024 0 1) False no_faults db_batch
       = Inr (AccountNotFound ''Z'' # fst (process_due no_faults [(''S'', subscription_S)] db_batch),
              snd (process_due no_faults [(''S'', subscription_S)] db_batch))"
    by (simp only: processSubscriptions_def due if_False sum.case)
  moreover have "fst (process_due no_faults [(''S'', subscription_S)] db_batch) = [Processed ''S'']"
    "balance_of (snd (process_due no_faults [(''S'', subscription_S)] db_batch)) ''A'' = 80"
    by code_simp+
  ultimately show ?thesis using due(1) g(3) by (intro conjI)
qed

end
